theory Spec2Isabelle
  imports Main "HOL-Library.Multiset"
begin

section \<open>Python values crossing the adapter boundary\<close>

text \<open>
  The two backends exchange JSON-shaped Python values with the host's tools: \<open>None\<close>,
  booleans, integers, strings, lists and dicts with string keys. A dict is an association
  list in insertion order; a lookup takes the first binding of a key. Strings are lists of
  code points below 256. Floating point numbers are left out.
\<close>

datatype json =
    JNull
  | JBool bool
  | JInt int
  | JStr string
  | JList "json list"
  | JDict "(string \<times> json) list"

text \<open>The exceptions the code can raise or let through.\<close>

datatype error =
    AttributeError
  | TypeError
  | KeyError string
  | ValueError string
  | RuntimeError string
  | NameError string
  | UpstreamError string

text \<open>\<open>d.get(key, default)\<close> on a dict.\<close>

definition dict_get :: "(string \<times> json) list \<Rightarrow> string \<Rightarrow> json \<Rightarrow> json" where
  "dict_get kvs k dflt = (case map_of kvs k of None \<Rightarrow> dflt | Some v \<Rightarrow> v)"

text \<open>
  \<open>x.get(key, default)\<close> on any value: only a dict has the method, every other value
  raises \<open>AttributeError\<close>.
\<close>

definition py_get :: "json \<Rightarrow> string \<Rightarrow> json \<Rightarrow> error + json" where
  "py_get x k dflt = (case x of JDict kvs \<Rightarrow> Inr (dict_get kvs k dflt) | _ \<Rightarrow> Inl AttributeError)"

text \<open>
  \<open>for x in v\<close>: a list yields its elements, a string its characters, a dict its keys;
  \<open>None\<close>, a boolean and an integer raise \<open>TypeError\<close>.
\<close>

definition py_iter :: "json \<Rightarrow> error + json list" where
  "py_iter v =
     (case v of
        JList xs \<Rightarrow> Inr xs
      | JStr s \<Rightarrow> Inr (map (\<lambda>c. JStr [c]) s)
      | JDict kvs \<Rightarrow> Inr (map (\<lambda>kv. JStr (fst kv)) kvs)
      | _ \<Rightarrow> Inl TypeError)"

text \<open>Truth value of \<open>if v\<close>.\<close>

definition truthy :: "json \<Rightarrow> bool" where
  "truthy v =
     (case v of
        JNull \<Rightarrow> False
      | JBool b \<Rightarrow> b
      | JInt i \<Rightarrow> i \<noteq> 0
      | JStr s \<Rightarrow> s \<noteq> []
      | JList xs \<Rightarrow> xs \<noteq> []
      | JDict kvs \<Rightarrow> kvs \<noteq> [])"

text \<open>Whether a value can be a member of a \<open>set\<close>: lists and dicts are unhashable.\<close>

definition hashable :: "json \<Rightarrow> bool" where
  "hashable v = (case v of JList xs \<Rightarrow> False | JDict kvs \<Rightarrow> False | _ \<Rightarrow> True)"

subsection \<open>The builtin \<open>str\<close>\<close>

definition hex_digit :: "nat \<Rightarrow> char" where
  "hex_digit n = ''0123456789abcdef'' ! (n mod 16)"

fun nat_digits :: "nat \<Rightarrow> string" where
  "nat_digits n =
     (if n < 10 then [hex_digit n]
      else nat_digits (n div 10) @ [hex_digit (n mod 10)])"

declare nat_digits.simps [simp del]

definition int_str :: "int \<Rightarrow> string" where
  "int_str i = (if i < 0 then CHR ''-'' # nat_digits (nat (- i)) else nat_digits (nat i))"

text \<open>
  \<open>repr\<close> of a string: the quote is \<open>'\<close> unless the string holds \<open>'\<close> and no
  \<open>"\<close>; the quote and the backslash are escaped, as are tab, newline, carriage return
  and every other code point that is not printable (\<open>\xhh\<close>).
\<close>

definition printable :: "char \<Rightarrow> bool" where
  "printable c =
     (let n = of_char c :: nat in (32 \<le> n \<and> n < 127) \<or> (161 \<le> n \<and> n \<noteq> 173))"

definition repr_char :: "char \<Rightarrow> char \<Rightarrow> string" where
  "repr_char quote c =
     (if c = quote \<or> c = CHR 0x5C then [CHR 0x5C, c]
      else if c = CHR 0x09 then [CHR 0x5C, CHR ''t'']
      else if c = CHR 0x0A then [CHR 0x5C, CHR ''n'']
      else if c = CHR 0x0D then [CHR 0x5C, CHR ''r'']
      else if printable c then [c]
      else [CHR 0x5C, CHR ''x'', hex_digit (of_char c div 16), hex_digit (of_char c mod 16)])"

definition repr_str :: "string \<Rightarrow> string" where
  "repr_str s =
     (let quote = (if CHR 0x27 \<in> set s \<and> CHR 0x22 \<notin> set s then CHR 0x22 else CHR 0x27)
      in quote # concat (map (repr_char quote) s) @ [quote])"

fun join :: "string \<Rightarrow> string list \<Rightarrow> string" where
  "join sep [] = []"
| "join sep [x] = x"
| "join sep (x # y # ys) = x @ sep @ join sep (y # ys)"

fun repr :: "json \<Rightarrow> string" where
  "repr JNull = ''None''"
| "repr (JBool b) = (if b then ''True'' else ''False'')"
| "repr (JInt i) = int_str i"
| "repr (JStr s) = repr_str s"
| "repr (JList xs) = ''['' @ join '', '' (map repr xs) @ '']''"
| "repr (JDict kvs) =
     ''{'' @ join '', '' (map (\<lambda>kv. repr_str (fst kv) @ '': '' @ repr (snd kv)) kvs) @ ''}''"

definition py_str :: "json \<Rightarrow> string" where
  "py_str v = (case v of JStr s \<Rightarrow> s | _ \<Rightarrow> repr v)"

section \<open>The canonical data model\<close>

text \<open>
  \<open>Memory\<close>, \<open>Relationship\<close>, \<open>KnowledgeGraph\<close> and \<open>OperationInfo\<close> are plain value
  classes: a constructor stores its arguments unchanged and checks nothing, so a field
  holds whatever Python value the backend passed. \<open>importance\<close> is \<open>None\<close> when the
  constructor is called without it. The timestamp type \<open>'dt\<close> stands for
  \<open>datetime\<close>.
\<close>

record 'dt memory =
  memory_id :: json
  content :: json
  created_at :: 'dt
  importance :: json
  metadata :: "(string \<times> json) list"

record relationship =
  source :: json
  target :: json
  relation_type :: json
  rel_metadata :: "(string \<times> json) list"

record 'dt knowledge_graph =
  nodes :: "'dt memory list"
  edges :: "relationship list"

record operation_info =
  op_name :: string
  description :: json
  params :: json
  example :: json

section \<open>The host\<close>

text \<open>
  The tools of the two memory services are functions the host binds at run time; a call
  takes the state of the outside world \<open>'w\<close> to a response or an exception and a new
  world. The clock and the two \<open>datetime\<close> conversions of the standard library are taken
  from the host as well. \<open>graphiti_tool h name\<close> is the function the host binds to
  \<open>mcp__graphiti__name\<close>.
\<close>

record ('w, 'dt) host =
  execute_forgetful_tool :: "string \<Rightarrow> json \<Rightarrow> 'w \<Rightarrow> (error + json) \<times> 'w"
  discover_forgetful_tools :: "'w \<Rightarrow> (error + json) \<times> 'w"
  graphiti_tool :: "string \<Rightarrow> json \<Rightarrow> 'w \<Rightarrow> (error + json) \<times> 'w"
  graphiti_get_status_bound :: bool
  now :: "'w \<Rightarrow> 'dt \<times> 'w"
  isoformat :: "'dt \<Rightarrow> string"
  fromisoformat :: "string \<Rightarrow> 'dt option"

text \<open>
  What a backend runs in: the outside world and, as a record of what was asked of it, the
  list of tool calls made so far (tool name and arguments, oldest first).
\<close>

record 'w env =
  world :: 'w
  calls :: "(string \<times> json) list"

text \<open>A \<open>ForgetfulBackend\<close> instance adds its \<open>_project_cache\<close> dict.\<close>

record 'w forgetful_backend = "'w env" +
  project_cache :: "string \<rightharpoonup> json"

text \<open>One tool call: the world moves on and the call is recorded.\<close>

definition invoke ::
  "(string \<Rightarrow> json \<Rightarrow> 'w \<Rightarrow> (error + json) \<times> 'w) \<Rightarrow> string \<Rightarrow> json \<Rightarrow>
     ('w, 'm) env_scheme \<Rightarrow> (error + json) \<times> ('w, 'm) env_scheme" where
  "invoke f tool args s =
     (case f tool args (world s) of
        (r, w') \<Rightarrow> (r, s\<lparr>world := w', calls := calls s @ [(tool, args)]\<rparr>))"

text \<open>\<open>datetime.now()\<close>: one reading of the clock.\<close>

definition read_clock ::
  "('w, 'dt) host \<Rightarrow> ('w, 'm) env_scheme \<Rightarrow> 'dt \<times> ('w, 'm) env_scheme" where
  "read_clock h s = (case now h (world s) of (t, w') \<Rightarrow> (t, s\<lparr>world := w'\<rparr>))"

text \<open>
  \<open>datetime.fromisoformat(v)\<close>: \<open>TypeError\<close> unless \<open>v\<close> is a string, \<open>ValueError\<close> when
  the string is not an ISO timestamp.
\<close>

definition from_iso :: "('w, 'dt) host \<Rightarrow> json \<Rightarrow> error + 'dt" where
  "from_iso h v =
     (case v of
        JStr t \<Rightarrow>
          (case fromisoformat h t of
             None \<Rightarrow> Inl (ValueError (''Invalid isoformat string: '' @ repr_str t))
           | Some d \<Rightarrow> Inr d)
      | _ \<Rightarrow> Inl TypeError)"

section \<open>ForgetfulBackend\<close>

subsection \<open>\<open>_parse_forgetful_memories\<close>\<close>

text \<open>
  \<open>Memory(...)\<close> as the parsing loop builds it from the fields \<open>kvs\<close> of a record and
  the parsed timestamp.
\<close>

definition forgetful_memory :: "(string \<times> json) list \<Rightarrow> 'dt \<Rightarrow> 'dt memory" where
  "forgetful_memory kvs d =
     \<lparr>memory_id = JStr (py_str (dict_get kvs ''id'' (JStr ''''))),
      content = dict_get kvs ''content'' (JStr ''''),
      created_at = d,
      importance = dict_get kvs ''importance'' JNull,
      metadata =
        [(''title'', dict_get kvs ''title'' (JStr '''')),
         (''keywords'', dict_get kvs ''keywords'' (JList [])),
         (''tags'', dict_get kvs ''tags'' (JList [])),
         (''linked_memory_ids'', dict_get kvs ''linked_memory_ids'' (JList []))]\<rparr>"

text \<open>
  One round of the parsing loop. The arguments of \<open>Memory(...)\<close> are evaluated in
  order: \<open>mem.get\<close> fails on a record that is not a dict before anything else happens,
  and the default of \<open>created_at\<close> reads the clock whether or not the field is there.
\<close>

definition parse_forgetful_memory ::
  "('w, 'dt) host \<Rightarrow> json \<Rightarrow> ('w, 'm) env_scheme \<Rightarrow>
     (error + 'dt memory) \<times> ('w, 'm) env_scheme" where
  "parse_forgetful_memory h mem s =
     (case mem of
        JDict kvs \<Rightarrow>
          (case read_clock h s of
             (t, s') \<Rightarrow>
               (case from_iso h (dict_get kvs ''created_at'' (JStr (isoformat h t))) of
                  Inl e \<Rightarrow> (Inl e, s')
                | Inr d \<Rightarrow> (Inr (forgetful_memory kvs d), s')))
      | _ \<Rightarrow> (Inl AttributeError, s))"

text \<open>A parsing loop over the records of a response, with the parser of one record.\<close>

fun parse_loop ::
  "(json \<Rightarrow> 's \<Rightarrow> (error + 'a) \<times> 's) \<Rightarrow> json list \<Rightarrow> 'a list \<Rightarrow> 's \<Rightarrow>
     (error + 'a list) \<times> 's" where
  "parse_loop f [] acc s = (Inr acc, s)"
| "parse_loop f (r # rs) acc s =
     (case f r s of
        (Inl e, s') \<Rightarrow> (Inl e, s')
      | (Inr m, s') \<Rightarrow> parse_loop f rs (acc @ [m]) s')"

text \<open>
  \<open>for r in result.get(key, [])\<close> around such a loop: the response has to be a dict
  and the value under the key iterable.
\<close>

definition parse_records ::
  "string \<Rightarrow> (json \<Rightarrow> 's \<Rightarrow> (error + 'a) \<times> 's) \<Rightarrow> json \<Rightarrow> 's \<Rightarrow> (error + 'a list) \<times> 's" where
  "parse_records key f result s =
     (case py_get result key (JList []) of
        Inl e \<Rightarrow> (Inl e, s)
      | Inr v \<Rightarrow>
          (case py_iter v of
             Inl e \<Rightarrow> (Inl e, s)
           | Inr rs \<Rightarrow> parse_loop f rs [] s))"

definition parse_forgetful_memories ::
  "('w, 'dt) host \<Rightarrow> json \<Rightarrow> ('w, 'm) env_scheme \<Rightarrow>
     (error + 'dt memory list) \<times> ('w, 'm) env_scheme" where
  "parse_forgetful_memories h result s =
     parse_records ''memories'' (parse_forgetful_memory h) result s"

subsection \<open>\<open>_group_to_project_id\<close>\<close>

text \<open>
  The search through the listed projects: the first project whose name is the group id
  gives its \<open>id\<close> (\<open>None\<close> when it has none); a project that is not a dict raises.
\<close>

fun find_project :: "string \<Rightarrow> json list \<Rightarrow> error + json option" where
  "find_project group_id [] = Inr None"
| "find_project group_id (project # rest) =
     (case py_get project ''name'' JNull of
        Inl e \<Rightarrow> Inl e
      | Inr n \<Rightarrow>
          if n = JStr group_id then
            (case py_get project ''id'' JNull of Inl e \<Rightarrow> Inl e | Inr i \<Rightarrow> Inr (Some i))
          else find_project group_id rest)"

definition create_project ::
  "('w, 'dt) host \<Rightarrow> string \<Rightarrow> 'w forgetful_backend \<Rightarrow>
     (error + json) \<times> 'w forgetful_backend" where
  "create_project h group_id s =
     (case invoke (execute_forgetful_tool h) ''create_project''
             (JDict [(''name'', JStr group_id),
                     (''description'', JStr (''Auto-created from group_id: '' @ group_id))]) s of
        (Inl e, s1) \<Rightarrow> (Inl e, s1)
      | (Inr create_result, s1) \<Rightarrow>
          (case py_get create_result ''id'' JNull of
             Inl e \<Rightarrow> (Inl e, s1)
           | Inr i \<Rightarrow>
               (case py_get create_result ''project_id'' i of
                  Inl e \<Rightarrow> (Inl e, s1)
                | Inr project_id \<Rightarrow>
                    (Inr project_id,
                     s1\<lparr>project_cache := (project_cache s1)(group_id \<mapsto> project_id)\<rparr>))))"

definition group_to_project_id ::
  "('w, 'dt) host \<Rightarrow> string \<Rightarrow> 'w forgetful_backend \<Rightarrow>
     (error + json) \<times> 'w forgetful_backend" where
  "group_to_project_id h group_id s =
     (case project_cache s group_id of
        Some project_id \<Rightarrow> (Inr project_id, s)
      | None \<Rightarrow>
          (case invoke (execute_forgetful_tool h) ''list_projects'' (JDict []) s of
             (Inl e, s1) \<Rightarrow> (Inl e, s1)
           | (Inr result, s1) \<Rightarrow>
               (case py_get result ''projects'' (JList []) of
                  Inl e \<Rightarrow> (Inl e, s1)
                | Inr ps \<Rightarrow>
                    (case py_iter ps of
                       Inl e \<Rightarrow> (Inl e, s1)
                     | Inr projects \<Rightarrow>
                         (case find_project group_id projects of
                            Inl e \<Rightarrow> (Inl e, s1)
                          | Inr (Some project_id) \<Rightarrow>
                              (Inr project_id,
                               s1\<lparr>project_cache :=
                                    (project_cache s1)(group_id \<mapsto> project_id)\<rparr>)
                          | Inr None \<Rightarrow> create_project h group_id s1)))))"

subsection \<open>\<open>query\<close>, \<open>save\<close> and \<open>list_recent\<close>\<close>

text \<open>\<open>[project_id] if project_id else dflt\<close>\<close>

definition project_ids :: "json \<Rightarrow> json \<Rightarrow> json" where
  "project_ids project_id dflt = (if truthy project_id then JList [project_id] else dflt)"

definition query_memory_args :: "string \<Rightarrow> json \<Rightarrow> int \<Rightarrow> json" where
  "query_memory_args query project_id limit =
     JDict [(''query'', JStr query),
            (''project_ids'', project_ids project_id JNull),
            (''k'', JInt limit),
            (''include_links'', JBool True)]"

definition forgetful_query ::
  "('w, 'dt) host \<Rightarrow> string \<Rightarrow> string \<Rightarrow> int \<Rightarrow> 'w forgetful_backend \<Rightarrow>
     (error + 'dt memory list) \<times> 'w forgetful_backend" where
  "forgetful_query h query group_id limit s =
     (case group_to_project_id h group_id s of
        (Inl e, s1) \<Rightarrow> (Inl e, s1)
      | (Inr project_id, s1) \<Rightarrow>
          (case invoke (execute_forgetful_tool h) ''query_memory''
                  (query_memory_args query project_id limit) s1 of
             (Inl e, s2) \<Rightarrow> (Inl e, s2)
           | (Inr result, s2) \<Rightarrow> parse_forgetful_memories h result s2))"

text \<open>The keyword arguments of \<open>save\<close> are a dict; \<open>metadata.get\<close> cannot fail.\<close>

definition create_memory_args :: "string \<Rightarrow> json \<Rightarrow> (string \<times> json) list \<Rightarrow> json" where
  "create_memory_args body project_id kwargs =
     JDict [(''title'', dict_get kwargs ''title'' (JStr ''Untitled'')),
            (''content'', JStr body),
            (''importance'', dict_get kwargs ''importance'' (JInt 5)),
            (''project_ids'', project_ids project_id (JList [])),
            (''keywords'', dict_get kwargs ''keywords'' (JList [])),
            (''tags'', dict_get kwargs ''tags'' (JList [])),
            (''context'', dict_get kwargs ''context'' (JStr ''''))]"

definition forgetful_save ::
  "('w, 'dt) host \<Rightarrow> string \<Rightarrow> string \<Rightarrow> (string \<times> json) list \<Rightarrow> 'w forgetful_backend \<Rightarrow>
     (error + string) \<times> 'w forgetful_backend" where
  "forgetful_save h body group_id kwargs s =
     (case group_to_project_id h group_id s of
        (Inl e, s1) \<Rightarrow> (Inl e, s1)
      | (Inr project_id, s1) \<Rightarrow>
          (case invoke (execute_forgetful_tool h) ''create_memory''
                  (create_memory_args body project_id kwargs) s1 of
             (Inl e, s2) \<Rightarrow> (Inl e, s2)
           | (Inr result, s2) \<Rightarrow>
               (case py_get result ''id'' (JStr ''unknown'') of
                  Inl e \<Rightarrow> (Inl e, s2)
                | Inr i \<Rightarrow>
                    (case py_get result ''memory_id'' i of
                       Inl e \<Rightarrow> (Inl e, s2)
                     | Inr new_id \<Rightarrow> (Inr (py_str new_id), s2)))))"

definition list_memories_args :: "json \<Rightarrow> int \<Rightarrow> json" where
  "list_memories_args project_id limit =
     JDict [(''project_ids'', project_ids project_id JNull),
            (''limit'', JInt limit),
            (''sort_by'', JStr ''created_at''),
            (''sort_order'', JStr ''desc'')]"

definition forgetful_list_recent ::
  "('w, 'dt) host \<Rightarrow> string \<Rightarrow> int \<Rightarrow> 'w forgetful_backend \<Rightarrow>
     (error + 'dt memory list) \<times> 'w forgetful_backend" where
  "forgetful_list_recent h group_id limit s =
     (case group_to_project_id h group_id s of
        (Inl e, s1) \<Rightarrow> (Inl e, s1)
      | (Inr project_id, s1) \<Rightarrow>
          (case invoke (execute_forgetful_tool h) ''list_memories''
                  (list_memories_args project_id limit) s1 of
             (Inl e, s2) \<Rightarrow> (Inl e, s2)
           | (Inr result, s2) \<Rightarrow> parse_forgetful_memories h result s2))"

subsection \<open>\<open>explore\<close>\<close>

text \<open>The edge \<open>explore\<close> and \<open>search_facts\<close> build for one linked id of a memory.\<close>

definition linked_to :: "'dt memory \<Rightarrow> json \<Rightarrow> relationship" where
  "linked_to m linked_id =
     \<lparr>source = memory_id m, target = JStr (py_str linked_id),
      relation_type = JStr ''linked_to'', rel_metadata = []\<rparr>"

text \<open>
  The innermost loop, over the linked ids of one memory: every id gives an edge, and a
  queue entry one level down while the current level is above the requested depth.
\<close>

fun explore_links ::
  "'dt memory \<Rightarrow> int \<Rightarrow> int \<Rightarrow> json list \<Rightarrow> relationship list \<times> (string \<times> int) list \<Rightarrow>
     relationship list \<times> (string \<times> int) list" where
  "explore_links m current_depth depth [] (es, queue) = (es, queue)"
| "explore_links m current_depth depth (linked_id # rest) (es, queue) =
     explore_links m current_depth depth rest
       (es @ [linked_to m linked_id],
        if current_depth < depth then queue @ [(py_str linked_id, current_depth + 1)]
        else queue)"

text \<open>
  The loop over the memories one query returned. A memory whose id is in \<open>visited\<close> is
  skipped; the membership test needs a hashable id, and iterating the linked ids needs an
  iterable.
\<close>

fun explore_memories ::
  "int \<Rightarrow> int \<Rightarrow> 'dt memory list \<Rightarrow>
     json set \<times> 'dt memory list \<times> relationship list \<times> (string \<times> int) list \<Rightarrow>
     error + json set \<times> 'dt memory list \<times> relationship list \<times> (string \<times> int) list" where
  "explore_memories current_depth depth [] acc = Inr acc"
| "explore_memories current_depth depth (m # rest) (visited, ns, es, queue) =
     (if \<not> hashable (memory_id m) then Inl TypeError
      else if memory_id m \<in> visited then
        explore_memories current_depth depth rest (visited, ns, es, queue)
      else
        (case py_iter (dict_get (metadata m) ''linked_memory_ids'' (JList [])) of
           Inl e \<Rightarrow> Inl e
         | Inr linked_ids \<Rightarrow>
             (case explore_links m current_depth depth linked_ids (es, queue) of
                (es', queue') \<Rightarrow>
                  explore_memories current_depth depth rest
                    (insert (memory_id m) visited, ns @ [m], es', queue'))))"

text \<open>The inner loop as a whole: one edge per linked id, one queue entry above the depth.\<close>

lemma explore_links_eq:
  "explore_links m cur depth ls (es, queue) =
     (es @ map (linked_to m) ls,
      queue @ (if cur < depth then map (\<lambda>l. (py_str l, cur + 1)) ls else []))"
  by (induction ls arbitrary: es queue) auto

text \<open>
  What one round adds to the queue: entries one level below the current one, and none
  once the current level has reached the depth.
\<close>

lemma explore_memories_queue:
  "explore_memories cur depth ms (visited, ns, es, queue) = Inr (visited', ns', es', queue') \<Longrightarrow>
     \<exists>new. queue' = queue @ new \<and> (cur < depth \<or> new = []) \<and> snd ` set new \<subseteq> {cur + 1}"
proof (induction ms arbitrary: visited ns es queue)
  case Nil
  then show ?case by simp
next
  case (Cons m ms)
  show ?case
  proof (cases "\<not> hashable (memory_id m) \<or> memory_id m \<in> visited")
    case True
    with Cons show ?thesis by (auto split: if_splits)
  next
    case False
    with Cons.prems obtain ls where
      rest: "explore_memories cur depth ms
        (insert (memory_id m) visited, ns @ [m], es @ map (linked_to m) ls,
         queue @ (if cur < depth then map (\<lambda>l. (py_str l, cur + 1)) ls else [])) =
        Inr (visited', ns', es', queue')"
      by (auto simp: explore_links_eq split: sum.splits)
    from Cons.IH [OF rest] obtain new where
      "queue' = (queue @ (if cur < depth then map (\<lambda>l. (py_str l, cur + 1)) ls else [])) @ new"
      "cur < depth \<or> new = []" "snd ` set new \<subseteq> {cur + 1}"
      by blast
    then show ?thesis
      by (intro exI [of _ "(if cur < depth then map (\<lambda>l. (py_str l, cur + 1)) ls else []) @ new"])
        auto
  qed
qed

text \<open>
  How far a queue entry is from the cut-off. The \<open>while\<close> loop replaces the head of the
  queue by entries that are strictly nearer to it, which is why it ends.
\<close>

definition weight :: "int \<Rightarrow> string \<times> int \<Rightarrow> nat" where
  "weight depth entry = nat (depth + 1 - snd entry)"

text \<open>
  The \<open>while queue\<close> loop: \<open>queue.pop(0)\<close>, the \<open>break\<close> once the level of the head
  exceeds the depth, one \<open>query\<close> with limit 5, then the loop over its memories. An
  exception leaves the loop with the backend as it is by then.
\<close>

function explore_loop ::
  "('w, 'dt) host \<Rightarrow> string \<Rightarrow> int \<Rightarrow> (string \<times> int) list \<Rightarrow>
     json set \<times> 'dt memory list \<times> relationship list \<Rightarrow> 'w forgetful_backend \<Rightarrow>
     (error + 'dt knowledge_graph) \<times> 'w forgetful_backend" where
  "explore_loop h group_id depth [] (visited, ns, es) s = (Inr \<lparr>nodes = ns, edges = es\<rparr>, s)"
| "explore_loop h group_id depth ((query_text, current_depth) # queue) (visited, ns, es) s =
     (if current_depth > depth then (Inr \<lparr>nodes = ns, edges = es\<rparr>, s)
      else
        (case forgetful_query h query_text group_id 5 s of
           (Inl e, s') \<Rightarrow> (Inl e, s')
         | (Inr memories, s') \<Rightarrow>
             (case explore_memories current_depth depth memories (visited, ns, es, queue) of
                Inl e \<Rightarrow> (Inl e, s')
              | Inr (visited', ns', es', queue') \<Rightarrow>
                  explore_loop h group_id depth queue' (visited', ns', es') s')))"
  by pat_completeness auto
termination
proof (relation "inv_image (mult {(a, b). a < b})
    (\<lambda>(h, g, depth, queue, acc, s). mset (map (weight depth) queue))", goal_cases)
  case 1
  show ?case by (simp add: wf_mult wf_inv_image wf_less)
next
  case (2 h g depth qt cur queue visited ns es s x e memories x2a v' x2b n' x2c e' q')
  from 2 obtain new where q': "q' = queue @ new" and new: "snd ` set new \<subseteq> {cur + 1}"
    using explore_memories_queue by blast
  have "(mset (map (weight depth) queue) + mset (map (weight depth) new),
         mset (map (weight depth) queue) + {#weight depth (qt, cur)#}) \<in> mult {(a, b). a < b}"
  proof (rule one_step_implies_mult)
    show "{#weight depth (qt, cur)#} \<noteq> {#}" by simp
    show "\<forall>k\<in>#mset (map (weight depth) new).
            \<exists>j\<in>#{#weight depth (qt, cur)#}. (k, j) \<in> {(a, b). a < b}"
      using new 2(1) by (auto simp: weight_def)
  qed
  then show ?case by (simp add: q')
qed

definition forgetful_explore ::
  "('w, 'dt) host \<Rightarrow> string \<Rightarrow> string \<Rightarrow> int \<Rightarrow> 'w forgetful_backend \<Rightarrow>
     (error + 'dt knowledge_graph) \<times> 'w forgetful_backend" where
  "forgetful_explore h starting_point group_id depth s =
     explore_loop h group_id depth [(starting_point, 0)] ({}, [], []) s"

subsection \<open>\<open>search_facts\<close>\<close>

fun linked_relationships ::
  "'dt memory list \<Rightarrow> relationship list \<Rightarrow> error + relationship list" where
  "linked_relationships [] relationships = Inr relationships"
| "linked_relationships (m # rest) relationships =
     (case py_iter (dict_get (metadata m) ''linked_memory_ids'' (JList [])) of
        Inl e \<Rightarrow> Inl e
      | Inr linked_ids \<Rightarrow>
          linked_relationships rest (relationships @ map (linked_to m) linked_ids))"

definition forgetful_search_facts ::
  "('w, 'dt) host \<Rightarrow> string \<Rightarrow> string \<Rightarrow> int \<Rightarrow> 'w forgetful_backend \<Rightarrow>
     (error + relationship list) \<times> 'w forgetful_backend" where
  "forgetful_search_facts h query group_id limit s =
     (case forgetful_query h query group_id limit s of
        (Inl e, s') \<Rightarrow> (Inl e, s')
      | (Inr memories, s') \<Rightarrow> (linked_relationships memories [], s'))"

subsection \<open>Discovery\<close>

text \<open>The operations \<open>get_capabilities\<close> lists for the Forgetful backend.\<close>

definition forgetful_operations :: "operation_info list" where
  "forgetful_operations =
     [\<lparr>op_name = ''query'',
       description = JStr ''Search for memories by semantic similarity'',
       params = JDict [(''query'', JStr ''str''), (''limit'', JStr ''int'')],
       example = JStr (''memory.query('' @ [CHR 0x22] @ ''auth patterns'' @ [CHR 0x22] @ '', limit=10)'')\<rparr>,
      \<lparr>op_name = ''save'',
       description = JStr ''Save new memory'',
       params = JDict [(''content'', JStr ''str''), (''title'', JStr ''str''),
                       (''importance'', JStr ''int (1-10)'')],
       example = JStr (''memory.save('' @ [CHR 0x22] @ ''Decision: JWT auth'' @ [CHR 0x22] @
                       '', title='' @ [CHR 0x22] @ ''Auth'' @ [CHR 0x22] @ '', importance=9)'')\<rparr>,
      \<lparr>op_name = ''list_recent'',
       description = JStr ''List recent memories'',
       params = JDict [(''limit'', JStr ''int'')],
       example = JStr ''memory.list_recent(limit=20)''\<rparr>]"

definition forgetful_get_capabilities ::
  "('w, 'dt) host \<Rightarrow> ('w, 'm) env_scheme \<Rightarrow>
     (error + operation_info list) \<times> ('w, 'm) env_scheme" where
  "forgetful_get_capabilities h s =
     (case invoke (\<lambda>tool args. discover_forgetful_tools h) ''discover_forgetful_tools'' (JDict []) s of
        (Inl e, s') \<Rightarrow> (Inl e, s')
      | (Inr tools, s') \<Rightarrow> (Inr forgetful_operations, s'))"

text \<open>
  \<open>get_schema\<close> and \<open>get_examples\<close> of the Forgetful backend look nothing up: they
  format the operation name they are given.
\<close>

definition forgetful_get_schema :: "string \<Rightarrow> error + json" where
  "forgetful_get_schema operation =
     Inr (JDict [(''description'', JStr (''Schema for '' @ operation)), (''params'', JDict [])])"

definition forgetful_get_examples :: "string \<Rightarrow> error + string list" where
  "forgetful_get_examples operation = Inr [''memory.'' @ operation @ ''(...)'']"

section \<open>GraphitiBackend\<close>

text \<open>\<open>d[key]\<close>: a missing key raises \<open>KeyError\<close>.\<close>

definition py_index :: "json \<Rightarrow> string \<Rightarrow> error + json" where
  "py_index x k =
     (case x of
        JDict kvs \<Rightarrow> (case map_of kvs k of None \<Rightarrow> Inl (KeyError k) | Some v \<Rightarrow> Inr v)
      | _ \<Rightarrow> Inl TypeError)"

text \<open>The class attribute \<open>OPERATIONS\<close>.\<close>

definition OPERATIONS :: "(string \<times> json) list" where
  "OPERATIONS =
     [(''query'',
       JDict [(''description'', JStr ''Search for memories by semantic similarity''),
              (''params'', JDict [(''query'', JStr ''str''), (''limit'', JStr ''int'')]),
              (''example'', JStr (''memory.query('' @ [CHR 0x22] @ ''auth patterns'' @
                                  [CHR 0x22] @ '', limit=10)''))]),
      (''search_facts'',
       JDict [(''description'', JStr ''Search for relationships between entities''),
              (''params'', JDict [(''query'', JStr ''str''), (''limit'', JStr ''int'')]),
              (''example'', JStr (''memory.search_facts('' @ [CHR 0x22] @ ''authentication flow'' @
                                  [CHR 0x22] @ '', limit=20)''))]),
      (''save'',
       JDict [(''description'', JStr ''Save new episode to knowledge graph''),
              (''params'', JDict [(''content'', JStr ''str''), (''title'', JStr ''str (optional)'')]),
              (''example'', JStr (''memory.save('' @ [CHR 0x22] @ ''Decision: Using JWT for auth'' @
                                  [CHR 0x22] @ '', title='' @ [CHR 0x22] @ ''Auth Decision'' @
                                  [CHR 0x22] @ '')''))]),
      (''explore'',
       JDict [(''description'', JStr ''Deep traversal from a starting memory''),
              (''params'', JDict [(''starting_point'', JStr ''str''), (''depth'', JStr ''int'')]),
              (''example'', JStr (''memory.explore('' @ [CHR 0x22] @ ''authentication'' @
                                  [CHR 0x22] @ '', depth=2)''))]),
      (''list_recent'',
       JDict [(''description'', JStr ''List recent memories''),
              (''params'', JDict [(''limit'', JStr ''int'')]),
              (''example'', JStr ''memory.list_recent(limit=20)'')])]"

text \<open>
  \<open>_check_mcp_available\<close>: a \<open>RuntimeError\<close> with guidance unless the host has bound
  \<open>mcp__graphiti__get_status\<close>.
\<close>

definition mcp_unavailable :: string where
  "mcp_unavailable =
     ''Graphiti MCP tools are not available in this execution context.'' @ [CHR 0x0A, CHR 0x0A] @
     ''The memory adapter can only be used when Python code is executed '' @
     ''by Claude Code directly (e.g., via commands or skills).'' @ [CHR 0x0A, CHR 0x0A] @
     ''If you'' @ [CHR 0x27] @ ''re trying to test the adapter:'' @ [CHR 0x0A] @
     ''  1. Use the /memory-list, /memory-save, or /memory-search commands'' @ [CHR 0x0A] @
     ''  2. Call the bridge functions from within a Claude Code Python block'' @ [CHR 0x0A] @
     ''  3. Do NOT run Python scripts via Bash subprocess'' @ [CHR 0x0A, CHR 0x0A] @
     ''For more info, see: README-lib.md''"

definition check_mcp_available :: "('w, 'dt) host \<Rightarrow> error + unit" where
  "check_mcp_available h =
     (if graphiti_get_status_bound h then Inr () else Inl (RuntimeError mcp_unavailable))"

subsection \<open>The parsers\<close>

text \<open>
  The \<open>Memory(...)\<close> calls of the two memory parsers, from the fields of a node or an
  episode and the parsed timestamp; neither passes \<open>importance\<close>.
\<close>

definition node_memory :: "(string \<times> json) list \<Rightarrow> 'dt \<Rightarrow> 'dt memory" where
  "node_memory kvs d =
     \<lparr>memory_id = dict_get kvs ''uuid'' (JStr ''''),
      content = dict_get kvs ''name'' (JStr ''''),
      created_at = d,
      importance = JNull,
      metadata = [(''summary'', dict_get kvs ''summary'' (JStr ''''))]\<rparr>"

definition episode_memory :: "(string \<times> json) list \<Rightarrow> 'dt \<Rightarrow> 'dt memory" where
  "episode_memory kvs d =
     \<lparr>memory_id = dict_get kvs ''uuid'' (JStr ''''),
      content = dict_get kvs ''content'' (dict_get kvs ''name'' (JStr '''')),
      created_at = d,
      importance = JNull,
      metadata =
        [(''name'', dict_get kvs ''name'' (JStr '''')),
         (''source'', dict_get kvs ''source'' (JStr '''')),
         (''episode_type'', JStr ''episode'')]\<rparr>"

definition parse_node ::
  "('w, 'dt) host \<Rightarrow> json \<Rightarrow> ('w, 'm) env_scheme \<Rightarrow>
     (error + 'dt memory) \<times> ('w, 'm) env_scheme" where
  "parse_node h node s =
     (case node of
        JDict kvs \<Rightarrow>
          (case read_clock h s of
             (t, s') \<Rightarrow>
               (case from_iso h (dict_get kvs ''created_at'' (JStr (isoformat h t))) of
                  Inl e \<Rightarrow> (Inl e, s')
                | Inr d \<Rightarrow> (Inr (node_memory kvs d), s')))
      | _ \<Rightarrow> (Inl AttributeError, s))"

definition parse_nodes_to_memories ::
  "('w, 'dt) host \<Rightarrow> json \<Rightarrow> ('w, 'm) env_scheme \<Rightarrow>
     (error + 'dt memory list) \<times> ('w, 'm) env_scheme" where
  "parse_nodes_to_memories h result s = parse_records ''nodes'' (parse_node h) result s"

definition parse_fact :: "json \<Rightarrow> error + relationship" where
  "parse_fact rec =
     (case rec of
        JDict kvs \<Rightarrow>
          Inr \<lparr>source = dict_get kvs ''source_node_uuid'' (JStr ''''),
               target = dict_get kvs ''target_node_uuid'' (JStr ''''),
               relation_type = dict_get kvs ''fact'' (JStr ''''),
               rel_metadata = [(''created_at'', dict_get kvs ''created_at'' (JStr ''''))]\<rparr>
      | _ \<Rightarrow> Inl AttributeError)"

definition parse_facts_to_relationships ::
  "json \<Rightarrow> 's \<Rightarrow> (error + relationship list) \<times> 's" where
  "parse_facts_to_relationships result s =
     parse_records ''facts'' (\<lambda>rec s'. (parse_fact rec, s')) result s"

definition parse_episode ::
  "('w, 'dt) host \<Rightarrow> json \<Rightarrow> ('w, 'm) env_scheme \<Rightarrow>
     (error + 'dt memory) \<times> ('w, 'm) env_scheme" where
  "parse_episode h episode s =
     (case episode of
        JDict kvs \<Rightarrow>
          (case read_clock h s of
             (t, s') \<Rightarrow>
               (case from_iso h (dict_get kvs ''created_at'' (JStr (isoformat h t))) of
                  Inl e \<Rightarrow> (Inl e, s')
                | Inr d \<Rightarrow> (Inr (episode_memory kvs d), s')))
      | _ \<Rightarrow> (Inl AttributeError, s))"

definition parse_episodes_to_memories ::
  "('w, 'dt) host \<Rightarrow> json \<Rightarrow> ('w, 'm) env_scheme \<Rightarrow>
     (error + 'dt memory list) \<times> ('w, 'm) env_scheme" where
  "parse_episodes_to_memories h result s = parse_records ''episodes'' (parse_episode h) result s"

subsection \<open>The operations\<close>

definition search_nodes_args :: "string \<Rightarrow> string \<Rightarrow> int \<Rightarrow> json" where
  "search_nodes_args query group_id limit =
     JDict [(''query'', JStr query),
            (''group_ids'', JList [JStr group_id]),
            (''max_nodes'', JInt limit)]"

definition graphiti_query ::
  "('w, 'dt) host \<Rightarrow> string \<Rightarrow> string \<Rightarrow> int \<Rightarrow> ('w, 'm) env_scheme \<Rightarrow>
     (error + 'dt memory list) \<times> ('w, 'm) env_scheme" where
  "graphiti_query h query group_id limit s =
     (case check_mcp_available h of
        Inl e \<Rightarrow> (Inl e, s)
      | Inr u \<Rightarrow>
          (case invoke (graphiti_tool h) ''search_nodes''
                  (search_nodes_args query group_id limit) s of
             (Inl e, s1) \<Rightarrow> (Inl e, s1)
           | (Inr result, s1) \<Rightarrow> parse_nodes_to_memories h result s1))"

definition search_memory_facts_args :: "string \<Rightarrow> string \<Rightarrow> int \<Rightarrow> json" where
  "search_memory_facts_args query group_id limit =
     JDict [(''query'', JStr query),
            (''group_ids'', JList [JStr group_id]),
            (''max_facts'', JInt limit)]"

definition graphiti_search_facts ::
  "('w, 'dt) host \<Rightarrow> string \<Rightarrow> string \<Rightarrow> int \<Rightarrow> ('w, 'm) env_scheme \<Rightarrow>
     (error + relationship list) \<times> ('w, 'm) env_scheme" where
  "graphiti_search_facts h query group_id limit s =
     (case check_mcp_available h of
        Inl e \<Rightarrow> (Inl e, s)
      | Inr u \<Rightarrow>
          (case invoke (graphiti_tool h) ''search_memory_facts''
                  (search_memory_facts_args query group_id limit) s of
             (Inl e, s1) \<Rightarrow> (Inl e, s1)
           | (Inr result, s1) \<Rightarrow> parse_facts_to_relationships result s1))"

definition add_memory_args :: "string \<Rightarrow> string \<Rightarrow> (string \<times> json) list \<Rightarrow> json" where
  "add_memory_args body group_id kwargs =
     JDict [(''name'', dict_get kwargs ''title'' (JStr ''Untitled'')),
            (''episode_body'', JStr body),
            (''group_id'', JStr group_id),
            (''source'', dict_get kwargs ''source'' (JStr ''context-hub'')),
            (''source_description'',
               dict_get kwargs ''source_description'' (JStr ''Saved via context-hub-plugin''))]"

text \<open>\<open>save\<close> hands back what the response holds under the id key, not its \<open>str\<close>.\<close>

definition graphiti_save ::
  "('w, 'dt) host \<Rightarrow> string \<Rightarrow> string \<Rightarrow> (string \<times> json) list \<Rightarrow> ('w, 'm) env_scheme \<Rightarrow>
     (error + json) \<times> ('w, 'm) env_scheme" where
  "graphiti_save h body group_id kwargs s =
     (case check_mcp_available h of
        Inl e \<Rightarrow> (Inl e, s)
      | Inr u \<Rightarrow>
          (case invoke (graphiti_tool h) ''add_memory'' (add_memory_args body group_id kwargs) s of
             (Inl e, s1) \<Rightarrow> (Inl e, s1)
           | (Inr result, s1) \<Rightarrow>
               (case py_get result ''uuid'' (JStr ''unknown'') of
                  Inl e \<Rightarrow> (Inl e, s1)
                | Inr i \<Rightarrow>
                    (case py_get result ''episode_id'' i of
                       Inl e \<Rightarrow> (Inl e, s1)
                     | Inr episode_id \<Rightarrow> (Inr episode_id, s1)))))"

text \<open>\<open>explore\<close> makes two searches from the starting point and never reads \<open>depth\<close>.\<close>

definition graphiti_explore ::
  "('w, 'dt) host \<Rightarrow> string \<Rightarrow> string \<Rightarrow> int \<Rightarrow> ('w, 'm) env_scheme \<Rightarrow>
     (error + 'dt knowledge_graph) \<times> ('w, 'm) env_scheme" where
  "graphiti_explore h starting_point group_id depth s =
     (case graphiti_query h starting_point group_id 10 s of
        (Inl e, s1) \<Rightarrow> (Inl e, s1)
      | (Inr ns, s1) \<Rightarrow>
          (case graphiti_search_facts h starting_point group_id 20 s1 of
             (Inl e, s2) \<Rightarrow> (Inl e, s2)
           | (Inr es, s2) \<Rightarrow> (Inr \<lparr>nodes = ns, edges = es\<rparr>, s2)))"

definition get_episodes_args :: "string \<Rightarrow> int \<Rightarrow> json" where
  "get_episodes_args group_id limit =
     JDict [(''group_ids'', JList [JStr group_id]), (''max_episodes'', JInt limit)]"

definition graphiti_list_recent ::
  "('w, 'dt) host \<Rightarrow> string \<Rightarrow> int \<Rightarrow> ('w, 'm) env_scheme \<Rightarrow>
     (error + 'dt memory list) \<times> ('w, 'm) env_scheme" where
  "graphiti_list_recent h group_id limit s =
     (case check_mcp_available h of
        Inl e \<Rightarrow> (Inl e, s)
      | Inr u \<Rightarrow>
          (case invoke (graphiti_tool h) ''get_episodes'' (get_episodes_args group_id limit) s of
             (Inl e, s1) \<Rightarrow> (Inl e, s1)
           | (Inr result, s1) \<Rightarrow> parse_episodes_to_memories h result s1))"

subsection \<open>Discovery\<close>

definition graphiti_get_schema :: "string \<Rightarrow> error + json" where
  "graphiti_get_schema operation =
     (case map_of OPERATIONS operation of
        None \<Rightarrow> Inl (ValueError (''Unknown operation: '' @ operation))
      | Some op_info \<Rightarrow>
          (case py_index op_info ''description'' of
             Inl e \<Rightarrow> Inl e
           | Inr d \<Rightarrow>
               (case py_index op_info ''params'' of
                  Inl e \<Rightarrow> Inl e
                | Inr p \<Rightarrow> Inr (JDict [(''description'', d), (''params'', p)]))))"

definition graphiti_get_examples :: "string \<Rightarrow> error + json list" where
  "graphiti_get_examples operation =
     (case map_of OPERATIONS operation of
        None \<Rightarrow> Inl (ValueError (''Unknown operation: '' @ operation))
      | Some op_info \<Rightarrow>
          (case py_index op_info ''example'' of
             Inl e \<Rightarrow> Inl e
           | Inr x \<Rightarrow> Inr [x]))"

text \<open>
  \<open>get_capabilities\<close>: \<open>OperationInfo(name=op, **details)\<close> for every entry of
  \<open>OPERATIONS\<close>; the constructor needs its three other arguments in \<open>details\<close>.
\<close>

definition operation_info_of :: "string \<Rightarrow> json \<Rightarrow> error + operation_info" where
  "operation_info_of op details =
     (case (py_index details ''description'', py_index details ''params'',
            py_index details ''example'') of
        (Inr d, Inr p, Inr x) \<Rightarrow>
          Inr \<lparr>op_name = op, description = d, params = p, example = x\<rparr>
      | _ \<Rightarrow> Inl TypeError)"

fun operation_infos :: "(string \<times> json) list \<Rightarrow> error + operation_info list" where
  "operation_infos [] = Inr []"
| "operation_infos ((op, details) # rest) =
     (case operation_info_of op details of
        Inl e \<Rightarrow> Inl e
      | Inr info \<Rightarrow>
          (case operation_infos rest of Inl e \<Rightarrow> Inl e | Inr infos \<Rightarrow> Inr (info # infos)))"

definition graphiti_get_capabilities :: "error + operation_info list" where
  "graphiti_get_capabilities = operation_infos OPERATIONS"

section \<open>A host for examples\<close>

text \<open>
  A small host to run the backends against. Its world is a clock tick and the names of
  the projects the Forgetful service holds (the project at position \<open>i\<close> has id
  \<open>i + 1\<close>). The memory store is fixed. \<open>query_memory\<close> returns every record that
  matches the query text, which is the case when the text is the record's \<open>id\<close> or one of
  its keywords; \<open>list_memories\<close>, \<open>search_nodes\<close> and \<open>get_episodes\<close> return the whole
  store in its order. None of them looks at the limit it is sent. Saving answers with a
  fixed response. A timestamp is valid when it has the 26 characters of
  \<open>YYYY-MM-DDTHH:MM:SS.ffffff\<close>.
\<close>

definition project_records :: "string list \<Rightarrow> json list" where
  "project_records names =
     map (\<lambda>(i, n). JDict [(''id'', JInt (int i)), (''name'', JStr n)])
       (zip [1 ..< Suc (length names)] names)"

definition matches :: "json \<Rightarrow> json \<Rightarrow> bool" where
  "matches q r =
     (py_get r ''id'' JNull = Inr q \<or>
      (case py_get r ''keywords'' (JList []) of Inr (JList ks) \<Rightarrow> q \<in> set ks | _ \<Rightarrow> False))"

definition demo_forgetful ::
  "json list \<Rightarrow> json \<Rightarrow> string \<Rightarrow> json \<Rightarrow> nat \<times> string list \<Rightarrow>
     (error + json) \<times> nat \<times> string list" where
  "demo_forgetful store saved tool args w =
     (if tool = ''list_projects'' then
        (Inr (JDict [(''projects'', JList (project_records (snd w)))]), w)
      else if tool = ''create_project'' then
        (case py_get args ''name'' JNull of
           Inr (JStr n) \<Rightarrow>
             (Inr (JDict [(''project_id'', JInt (int (Suc (length (snd w)))))]),
              (fst w, snd w @ [n]))
         | _ \<Rightarrow> (Inl (UpstreamError ''name required''), w))
      else if tool = ''query_memory'' then
        (case py_get args ''query'' JNull of
           Inr q \<Rightarrow> (Inr (JDict [(''memories'', JList (filter (matches q) store))]), w)
         | Inl e \<Rightarrow> (Inl (UpstreamError ''query required''), w))
      else if tool = ''list_memories'' then (Inr (JDict [(''memories'', JList store)]), w)
      else if tool = ''create_memory'' then (Inr saved, w)
      else (Inl (UpstreamError ''unknown tool''), w))"

definition demo_graphiti ::
  "json list \<Rightarrow> json \<Rightarrow> string \<Rightarrow> json \<Rightarrow> nat \<times> string list \<Rightarrow>
     (error + json) \<times> nat \<times> string list" where
  "demo_graphiti store saved tool args w =
     (if tool = ''search_nodes'' then (Inr (JDict [(''nodes'', JList store)]), w)
      else if tool = ''search_memory_facts'' then (Inr (JDict [(''facts'', JList [])]), w)
      else if tool = ''add_memory'' then (Inr saved, w)
      else if tool = ''get_episodes'' then (Inr (JDict [(''episodes'', JList store)]), w)
      else (Inl (NameError tool), w))"

definition demo_host :: "json list \<Rightarrow> json \<Rightarrow> (nat \<times> string list, string) host" where
  "demo_host store saved =
     \<lparr>execute_forgetful_tool = demo_forgetful store saved,
      discover_forgetful_tools = (\<lambda>w. (Inr (JDict []), w)),
      graphiti_tool = demo_graphiti store saved,
      graphiti_get_status_bound = True,
      now = (\<lambda>w. (''2024-01-01T00:00:00.00000'' @ [hex_digit (fst w)], (Suc (fst w), snd w))),
      isoformat = (\<lambda>t. t),
      fromisoformat = (\<lambda>t. if length t = 26 then Some t else None)\<rparr>"

text \<open>A fresh backend in a world with no project.\<close>

definition start :: "(nat \<times> string list) forgetful_backend" where
  "start = \<lparr>world = (0, []), calls = [], project_cache = Map.empty\<rparr>"

text \<open>
  The fields of a stored record: an id (also as \<open>uuid\<close>, for the Graphiti parsers), a
  creation time, keywords and the ids of the linked memories.
\<close>

definition stored_fields ::
  "string \<Rightarrow> string \<Rightarrow> string list \<Rightarrow> string list \<Rightarrow> (string \<times> json) list" where
  "stored_fields i stamp keywords links =
     [(''id'', JStr i), (''uuid'', JStr i), (''content'', JStr (''memory '' @ i)),
      (''created_at'', JStr stamp), (''keywords'', JList (map JStr keywords)),
      (''linked_memory_ids'', JList (map JStr links))]"

definition stored :: "string \<Rightarrow> string \<Rightarrow> string list \<Rightarrow> string list \<Rightarrow> json" where
  "stored i stamp keywords links = JDict (stored_fields i stamp keywords links)"

text \<open>Two memories that list each other.\<close>

definition cyclic_store :: "json list" where
  "cyclic_store =
     [stored ''A'' ''2024-05-01T10:00:00.000000'' [] [''B''],
      stored ''B'' ''2024-05-02T10:00:00.000000'' [] [''A'']]"

text \<open>The graph root \<open>\<rightarrow>\<close> a, b; a \<open>\<rightarrow>\<close> c; b and c list nothing.\<close>

definition tree_store :: "json list" where
  "tree_store =
     [stored ''root'' ''2024-05-01T10:00:00.000000'' [] [''a'', ''b''],
      stored ''a'' ''2024-05-02T10:00:00.000000'' [] [''c''],
      stored ''b'' ''2024-05-03T10:00:00.000000'' [] [],
      stored ''c'' ''2024-05-04T10:00:00.000000'' [] []]"

text \<open>Two memories on the same subject, the older one first.\<close>

definition auth_store :: "json list" where
  "auth_store =
     [stored ''1'' ''2024-05-01T10:00:00.000000'' [''auth''] [],
      stored ''2'' ''2024-05-02T10:00:00.000000'' [''auth''] []]"

text \<open>
  The same host, except that \<open>search_memory_facts\<close> returns one fact between the two
  stored memories.
\<close>

definition facts_host :: "(nat \<times> string list, string) host" where
  "facts_host =
     (demo_host auth_store JNull)
       \<lparr>graphiti_tool :=
          (\<lambda>tool args w.
             if tool = ''search_memory_facts'' then
               (Inr (JDict [(''facts'',
                             JList [JDict [(''source_node_uuid'', JStr ''1''),
                                           (''target_node_uuid'', JStr ''2''),
                                           (''fact'', JStr ''precedes'')]])]), w)
             else demo_graphiti auth_store JNull tool args w)\<rparr>"

text \<open>
  Two memories that list each other, as a service with integer ids stores them: the
  first is found under the keyword \<open>start\<close>, and no query text is the \<open>id\<close> of a
  record, since the ids are integers and a query text is a string.
\<close>

definition numbered_fields ::
  "int \<Rightarrow> string \<Rightarrow> string list \<Rightarrow> int list \<Rightarrow> (string \<times> json) list" where
  "numbered_fields i stamp keywords links =
     [(''id'', JInt i), (''content'', JStr ''memory''), (''created_at'', JStr stamp),
      (''keywords'', JList (map JStr keywords)), (''linked_memory_ids'', JList (map JInt links))]"

definition numbered_store :: "json list" where
  "numbered_store =
     [JDict (numbered_fields 1 ''2024-05-01T10:00:00.000000'' [''start''] [2]),
      JDict (numbered_fields 2 ''2024-05-02T10:00:00.000000'' [] [1])]"

section \<open>Properties\<close>

subsection \<open>Tool calls made by the parsers and the Graphiti searches\<close>

lemma parse_loop_calls:
  assumes "\<And>r s. calls (snd (f r s)) = calls s"
  shows "calls (snd (parse_loop f rs acc s)) = calls s"
proof (induction rs arbitrary: acc s)
  case Nil
  show ?case by simp
next
  case (Cons r rs)
  show ?case
  proof (cases "f r s")
    case (Pair x s')
    have c: "calls s' = calls s" using assms [of r s] Pair by simp
    show ?thesis
    proof (cases x)
      case (Inl e)
      with Pair c show ?thesis by simp
    next
      case (Inr m)
      with Pair c Cons.IH [of "acc @ [m]" s'] show ?thesis by simp
    qed
  qed
qed

lemma parse_records_calls:
  assumes "\<And>r s. calls (snd (f r s)) = calls s"
  shows "calls (snd (parse_records key f result s)) = calls s"
  using parse_loop_calls [of f, OF assms]
  by (simp add: parse_records_def split: sum.splits)

lemma read_clock_calls: "calls (snd (read_clock h s)) = calls s"
  by (simp add: read_clock_def split: prod.splits)

lemma parse_node_calls: "calls (snd (parse_node h r s)) = calls s"
  using read_clock_calls [of h s]
  by (auto simp: parse_node_def split: json.splits prod.splits sum.splits)


lemma parse_nodes_to_memories_calls:
  "calls (snd (parse_nodes_to_memories h result s)) = calls s"
  by (simp add: parse_nodes_to_memories_def parse_records_calls parse_node_calls)

lemma parse_facts_to_relationships_calls:
  "calls (snd (parse_facts_to_relationships result s)) = calls s"
  by (simp add: parse_facts_to_relationships_def parse_records_calls)

lemma graphiti_query_calls:
  "calls (snd (graphiti_query h q g n s)) =
     calls s @ (if graphiti_get_status_bound h then [(''search_nodes'', search_nodes_args q g n)] else [])"
  by (auto simp: graphiti_query_def check_mcp_available_def invoke_def parse_nodes_to_memories_calls
      split: prod.splits sum.splits)

lemma graphiti_search_facts_calls:
  "calls (snd (graphiti_search_facts h q g n s)) =
     calls s @ (if graphiti_get_status_bound h
                then [(''search_memory_facts'', search_memory_facts_args q g n)] else [])"
  by (auto simp: graphiti_search_facts_def check_mcp_available_def invoke_def
      parse_facts_to_relationships_calls split: prod.splits sum.splits)

subsection \<open>GraphitiBackend.explore and the depth\<close>

text \<open>
  C9. \<open>GraphitiBackend.explore\<close> gives the same result and leaves the same backend for
  any two depths, and the result is that of \<open>query\<close> with limit 10 followed by
  \<open>search_facts\<close> with limit 20, both on the starting point: it returns a graph exactly
  when both return, the nodes being what \<open>query\<close> returned and the edges what
  \<open>search_facts\<close> returned in the backend \<open>query\<close> left; it raises exactly when
  \<open>query\<close> raises or, after \<open>query\<close> returned, \<open>search_facts\<close> raises, with that
  exception. The tool calls it makes are \<open>search_nodes\<close> with \<open>max_nodes = 10\<close> and, when
  \<open>query\<close> returned, \<open>search_memory_facts\<close> with \<open>max_facts = 20\<close>; none when the tools
  are not bound.
\<close>

theorem graphiti_explore_ignores_depth:
  "graphiti_explore h starting_point group_id d1 s = graphiti_explore h starting_point group_id d2 s \<and>
   (graphiti_explore h starting_point group_id d1 s = (Inr kg, s') \<longleftrightarrow>
      (\<exists>s1. graphiti_query h starting_point group_id 10 s = (Inr (nodes kg), s1) \<and>
            graphiti_search_facts h starting_point group_id 20 s1 = (Inr (edges kg), s'))) \<and>
   (graphiti_explore h starting_point group_id d1 s = (Inl e, s') \<longleftrightarrow>
      graphiti_query h starting_point group_id 10 s = (Inl e, s') \<or>
      (\<exists>ns s1. graphiti_query h starting_point group_id 10 s = (Inr ns, s1) \<and>
               graphiti_search_facts h starting_point group_id 20 s1 = (Inl e, s'))) \<and>
   calls (snd (graphiti_explore h starting_point group_id d1 s)) =
     calls s @
     (if graphiti_get_status_bound h then
        (''search_nodes'',
         JDict [(''query'', JStr starting_point), (''group_ids'', JList [JStr group_id]),
                (''max_nodes'', JInt 10)]) #
        (case fst (graphiti_query h starting_point group_id 10 s) of
           Inl x \<Rightarrow> []
         | Inr ns \<Rightarrow>
             [(''search_memory_facts'',
               JDict [(''query'', JStr starting_point), (''group_ids'', JList [JStr group_id]),
                      (''max_facts'', JInt 20)])])
      else [])"
proof (intro conjI)
  show "graphiti_explore h starting_point group_id d1 s =
        graphiti_explore h starting_point group_id d2 s"
    by (simp add: graphiti_explore_def)
next
  show "graphiti_explore h starting_point group_id d1 s = (Inr kg, s') \<longleftrightarrow>
      (\<exists>s1. graphiti_query h starting_point group_id 10 s = (Inr (nodes kg), s1) \<and>
            graphiti_search_facts h starting_point group_id 20 s1 = (Inr (edges kg), s'))"
    by (cases kg) (auto simp: graphiti_explore_def split: prod.splits sum.splits)
next
  show "graphiti_explore h starting_point group_id d1 s = (Inl e, s') \<longleftrightarrow>
      graphiti_query h starting_point group_id 10 s = (Inl e, s') \<or>
      (\<exists>ns s1. graphiti_query h starting_point group_id 10 s = (Inr ns, s1) \<and>
               graphiti_search_facts h starting_point group_id 20 s1 = (Inl e, s'))"
    by (auto simp: graphiti_explore_def split: prod.splits sum.splits)
next
  obtain r1 s1 where q: "graphiti_query h starting_point group_id 10 s = (r1, s1)"
    by (cases "graphiti_query h starting_point group_id 10 s")
  obtain r2 s2 where f: "graphiti_search_facts h starting_point group_id 20 s1 = (r2, s2)"
    by (cases "graphiti_search_facts h starting_point group_id 20 s1")
  have c1: "calls s1 = calls s @
      (if graphiti_get_status_bound h
       then [(''search_nodes'', search_nodes_args starting_point group_id 10)] else [])"
    using graphiti_query_calls [of h starting_point group_id 10 s] q by simp
  have c2: "calls s2 = calls s1 @
      (if graphiti_get_status_bound h
       then [(''search_memory_facts'', search_memory_facts_args starting_point group_id 20)]
       else [])"
    using graphiti_search_facts_calls [of h starting_point group_id 20 s1] f by simp
  have unbound: "\<not> graphiti_get_status_bound h \<Longrightarrow> \<exists>x. r1 = Inl x"
    using q by (auto simp: graphiti_query_def check_mcp_available_def)
  show "calls (snd (graphiti_explore h starting_point group_id d1 s)) =
     calls s @
     (if graphiti_get_status_bound h then
        (''search_nodes'',
         JDict [(''query'', JStr starting_point), (''group_ids'', JList [JStr group_id]),
                (''max_nodes'', JInt 10)]) #
        (case fst (graphiti_query h starting_point group_id 10 s) of
           Inl x \<Rightarrow> []
         | Inr ns \<Rightarrow>
             [(''search_memory_facts'',
               JDict [(''query'', JStr starting_point), (''group_ids'', JList [JStr group_id]),
                      (''max_facts'', JInt 20)])])
      else [])"
  proof (cases r1)
    case (Inl x)
    then have "calls (snd (graphiti_explore h starting_point group_id d1 s)) = calls s1"
      using q by (simp add: graphiti_explore_def)
    with c1 q Inl show ?thesis
      by (simp add: search_nodes_args_def)
  next
    case (Inr ns)
    then have "calls (snd (graphiti_explore h starting_point group_id d1 s)) = calls s2"
      using q f by (simp add: graphiti_explore_def split: sum.splits)
    with c1 c2 q Inr unbound show ?thesis
      by (auto simp: search_nodes_args_def search_memory_facts_args_def)
  qed
qed

text \<open>
  On a host whose \<open>search_nodes\<close> returns the two stored memories and whose
  \<open>search_memory_facts\<close> returns one fact, for the depths 0 and 3.
\<close>

theorem graphiti_explore_ignores_depth_witness:
  "graphiti_explore facts_host ''auth'' ''grp'' 0 start =
     graphiti_explore facts_host ''auth'' ''grp'' 3 start \<and>
   graphiti_explore facts_host ''auth'' ''grp'' 3 start =
     (Inr \<lparr>nodes = [node_memory (stored_fields ''1'' ''2024-05-01T10:00:00.000000'' [''auth''] [])
                      ''2024-05-01T10:00:00.000000'',
                    node_memory (stored_fields ''2'' ''2024-05-02T10:00:00.000000'' [''auth''] [])
                      ''2024-05-02T10:00:00.000000''],
           edges = [\<lparr>source = JStr ''1'', target = JStr ''2'', relation_type = JStr ''precedes'',
                     rel_metadata = [(''created_at'', JStr '''')]\<rparr>]\<rparr>,
      start\<lparr>world := (2, []),
            calls := [(''search_nodes'',
                       JDict [(''query'', JStr ''auth''), (''group_ids'', JList [JStr ''grp'']),
                              (''max_nodes'', JInt 10)]),
                      (''search_memory_facts'',
                       JDict [(''query'', JStr ''auth''), (''group_ids'', JList [JStr ''grp'']),
                              (''max_facts'', JInt 20)])]\<rparr>)"
proof -
  let ?ns = "[node_memory (stored_fields ''1'' ''2024-05-01T10:00:00.000000'' [''auth''] [])
                ''2024-05-01T10:00:00.000000'',
              node_memory (stored_fields ''2'' ''2024-05-02T10:00:00.000000'' [''auth''] [])
                ''2024-05-02T10:00:00.000000'']"
  let ?es = "[\<lparr>source = JStr ''1'', target = JStr ''2'', relation_type = JStr ''precedes'',
               rel_metadata = [(''created_at'', JStr '''')]\<rparr>]"
  let ?n = "(''search_nodes'',
             JDict [(''query'', JStr ''auth''), (''group_ids'', JList [JStr ''grp'']),
                    (''max_nodes'', JInt 10)])"
  let ?f = "(''search_memory_facts'',
             JDict [(''query'', JStr ''auth''), (''group_ids'', JList [JStr ''grp'']),
                    (''max_facts'', JInt 20)])"
  let ?s1 = "start\<lparr>world := (2, []), calls := [?n]\<rparr>"
  let ?s2 = "start\<lparr>world := (2, []), calls := [?n, ?f]\<rparr>"
  note t = graphiti_explore_ignores_depth [of facts_host "''auth''" "''grp''" 3 start 0
      "\<lparr>nodes = ?ns, edges = ?es\<rparr>" ?s2]
  have q: "graphiti_query facts_host ''auth'' ''grp'' 10 start = (Inr ?ns, ?s1)"
    by (simp add: graphiti_query_def check_mcp_available_def search_nodes_args_def
        parse_nodes_to_memories_def parse_records_def parse_node_def read_clock_def
        from_iso_def facts_host_def auth_store_def demo_host_def demo_graphiti_def start_def
        stored_def stored_fields_def invoke_def py_get_def dict_get_def py_iter_def)
  have f: "graphiti_search_facts facts_host ''auth'' ''grp'' 20 ?s1 = (Inr ?es, ?s2)"
    by (simp add: graphiti_search_facts_def check_mcp_available_def
        search_memory_facts_args_def parse_facts_to_relationships_def parse_records_def
        parse_fact_def facts_host_def demo_host_def start_def invoke_def py_get_def
        dict_get_def py_iter_def)
  have "\<exists>s1. graphiti_query facts_host ''auth'' ''grp'' 10 start =
               (Inr (nodes \<lparr>nodes = ?ns, edges = ?es\<rparr>), s1) \<and>
             graphiti_search_facts facts_host ''auth'' ''grp'' 20 s1 =
               (Inr (edges \<lparr>nodes = ?ns, edges = ?es\<rparr>), ?s2)"
    using q f by (intro exI [of _ ?s1]) simp
  then have second: "graphiti_explore facts_host ''auth'' ''grp'' 3 start =
      (Inr \<lparr>nodes = ?ns, edges = ?es\<rparr>, ?s2)"
    by (rule iffD2 [OF conjunct1 [OF conjunct2 [OF t]]])
  have first: "graphiti_explore facts_host ''auth'' ''grp'' 0 start =
     graphiti_explore facts_host ''auth'' ''grp'' 3 start"
    by (rule conjunct1 [OF t, symmetric])
  show ?thesis by (rule conjI [OF first second])
qed

subsection \<open>save when the response names no id\<close>

text \<open>
  C10. If the namespace resolves and the response of \<open>create_memory\<close> is a dict with
  neither \<open>memory_id\<close> nor \<open>id\<close>, \<open>ForgetfulBackend.save\<close> does not raise and returns
  the string \<open>unknown\<close>. If the Graphiti tools are bound and the response of
  \<open>add_memory\<close> is a dict with neither \<open>episode_id\<close> nor \<open>uuid\<close>,
  \<open>GraphitiBackend.save\<close> does not raise and returns the string \<open>unknown\<close>.
\<close>

theorem save_without_id_returns_unknown:
  "(group_to_project_id h group_id s = (Inr project_id, s1) \<and>
    invoke (execute_forgetful_tool h) ''create_memory''
      (create_memory_args body project_id kwargs) s1 = (Inr (JDict response), s2) \<and>
    map_of response ''memory_id'' = None \<and> map_of response ''id'' = None
    \<longrightarrow> forgetful_save h body group_id kwargs s = (Inr ''unknown'', s2))
   \<and>
   (graphiti_get_status_bound h \<and>
    invoke (graphiti_tool h) ''add_memory'' (add_memory_args body group_id kwargs) g =
      (Inr (JDict response), g1) \<and>
    map_of response ''episode_id'' = None \<and> map_of response ''uuid'' = None
    \<longrightarrow> graphiti_save h body group_id kwargs g = (Inr (JStr ''unknown''), g1))"
  by (simp add: forgetful_save_def graphiti_save_def check_mcp_available_def py_get_def
      dict_get_def py_str_def)

text \<open>The definitions that evaluate a run on the example host.\<close>

lemmas demo_defs =
  demo_host_def demo_forgetful_def demo_graphiti_def project_records_def start_def matches_def
  stored_def stored_fields_def
  invoke_def py_get_def dict_get_def py_iter_def truthy_def project_ids_def

text \<open>On the example host, whose saving response is \<open>{"status": "ok"}\<close>.\<close>

theorem save_without_id_witness:
  "fst (forgetful_save (demo_host [] (JDict [(''status'', JStr ''ok'')])) ''note'' ''grp'' [] start) =
     Inr ''unknown'' \<and>
   fst (graphiti_save (demo_host [] (JDict [(''status'', JStr ''ok'')])) ''note'' ''grp'' [] start) =
     Inr (JStr ''unknown'')"
proof -
  let ?h = "demo_host [] (JDict [(''status'', JStr ''ok'')])"
  let ?s1 = "snd (group_to_project_id ?h ''grp'' start)"
  let ?s2 = "snd (invoke (execute_forgetful_tool ?h) ''create_memory''
                (create_memory_args ''note'' (JInt 1) []) ?s1)"
  let ?g1 = "snd (invoke (graphiti_tool ?h) ''add_memory'' (add_memory_args ''note'' ''grp'' []) start)"
  have a: "group_to_project_id ?h ''grp'' start = (Inr (JInt 1), ?s1)"
    by (simp add: prod_eq_iff group_to_project_id_def create_project_def demo_defs)
  have b: "invoke (execute_forgetful_tool ?h) ''create_memory''
      (create_memory_args ''note'' (JInt 1) []) ?s1 = (Inr (JDict [(''status'', JStr ''ok'')]), ?s2)"
    by (simp add: prod_eq_iff demo_defs)
  have c: "graphiti_get_status_bound ?h" by (simp add: demo_host_def)
  have d: "invoke (graphiti_tool ?h) ''add_memory'' (add_memory_args ''note'' ''grp'' []) start =
      (Inr (JDict [(''status'', JStr ''ok'')]), ?g1)"
    by (simp add: prod_eq_iff demo_defs)
  have e: "map_of [(''status'', JStr ''ok'')] ''memory_id'' = None"
    "map_of [(''status'', JStr ''ok'')] ''id'' = None"
    "map_of [(''status'', JStr ''ok'')] ''episode_id'' = None"
    "map_of [(''status'', JStr ''ok'')] ''uuid'' = None"
    by simp_all
  from save_without_id_returns_unknown [where h = ?h and group_id = "''grp''" and s = start
      and project_id = "JInt 1" and ?s1.0 = ?s1 and body = "''note''" and kwargs = "[]"
      and response = "[(''status'', JStr ''ok'')]" and ?s2.0 = ?s2 and g = start and ?g1.0 = ?g1]
    a b c d e
  have "forgetful_save ?h ''note'' ''grp'' [] start = (Inr ''unknown'', ?s2)"
    and "graphiti_save ?h ''note'' ''grp'' [] start = (Inr (JStr ''unknown''), ?g1)"
    by blast+
  then show ?thesis by simp
qed

subsection \<open>get_schema and get_examples on an unknown operation\<close>

text \<open>
  C4. The claim asks every backend to fail on an operation name it does not know. At the
  name \<open>bogus\<close>, which \<open>ForgetfulBackend.get_capabilities\<close> does not list,
  \<open>ForgetfulBackend.get_schema\<close> and \<open>get_examples\<close> return a value, while
  \<open>GraphitiBackend\<close> raises \<open>ValueError\<close> for the same name.
\<close>

theorem forgetful_get_schema_accepts_unknown:
  "forgetful_get_schema ''bogus'' =
     Inr (JDict [(''description'', JStr ''Schema for bogus''), (''params'', JDict [])]) \<and>
   forgetful_get_examples ''bogus'' = Inr [''memory.bogus(...)''] \<and>
   ''bogus'' \<notin> set (map op_name forgetful_operations) \<and>
   graphiti_get_schema ''bogus'' = Inl (ValueError ''Unknown operation: bogus'') \<and>
   graphiti_get_examples ''bogus'' = Inl (ValueError ''Unknown operation: bogus'')"
  by (simp add: forgetful_get_schema_def forgetful_get_examples_def forgetful_operations_def
      graphiti_get_schema_def graphiti_get_examples_def OPERATIONS_def)

text \<open>\<open>GraphitiBackend\<close> fails on every name outside \<open>OPERATIONS\<close> and on none inside.\<close>

lemma graphiti_unknown_operation:
  assumes "operation \<notin> fst ` set OPERATIONS"
  shows "graphiti_get_schema operation = Inl (ValueError (''Unknown operation: '' @ operation)) \<and>
     graphiti_get_examples operation = Inl (ValueError (''Unknown operation: '' @ operation))"
proof -
  from assms have "map_of OPERATIONS operation = None"
    by (simp add: map_of_eq_None_iff)
  then show ?thesis
    by (simp add: graphiti_get_schema_def graphiti_get_examples_def)
qed

subsection \<open>Namespace resolution\<close>

text \<open>A tool call leaves the project cache alone and adds one entry to the calls.\<close>

lemma invoke_frame:
  "invoke f tool args s = (r, s') \<Longrightarrow>
     project_cache s' = project_cache s \<and> calls s' = calls s @ [(tool, args)]"
  by (auto simp: invoke_def split: prod.splits)

lemma create_project_result:
  assumes "create_project h g s = (Inr pid, s1)"
  shows "project_cache s1 g = Some pid \<and>
         calls s1 = calls s @ [(''create_project'',
           JDict [(''name'', JStr g), (''description'', JStr (''Auto-created from group_id: '' @ g))])]"
proof -
  let ?args = "JDict [(''name'', JStr g), (''description'', JStr (''Auto-created from group_id: '' @ g))]"
  obtain r s0 where i: "invoke (execute_forgetful_tool h) ''create_project'' ?args s = (r, s0)"
    by (cases "invoke (execute_forgetful_tool h) ''create_project'' ?args s")
  from invoke_frame [OF i] have c: "calls s0 = calls s @ [(''create_project'', ?args)]" by simp
  from assms i have "s1 = s0\<lparr>project_cache := (project_cache s0)(g \<mapsto> pid)\<rparr>"
    by (auto simp: create_project_def split: sum.splits)
  with c show ?thesis by simp
qed

text \<open>
  A resolution that returns has cached what it returns; from a cache miss it has listed
  the projects once and created at most one.
\<close>

lemma group_to_project_id_result:
  assumes "group_to_project_id h g s = (Inr pid, s1)"
  shows "project_cache s1 g = Some pid"
    and "project_cache s g = None \<Longrightarrow>
         calls s1 = calls s @ [(''list_projects'', JDict [])] \<or>
         calls s1 = calls s @ [(''list_projects'', JDict []), (''create_project'',
           JDict [(''name'', JStr g), (''description'', JStr (''Auto-created from group_id: '' @ g))])]"
proof -
  obtain r s0 where i: "invoke (execute_forgetful_tool h) ''list_projects'' (JDict []) s = (r, s0)"
    by (cases "invoke (execute_forgetful_tool h) ''list_projects'' (JDict []) s")
  from invoke_frame [OF i] have c: "calls s0 = calls s @ [(''list_projects'', JDict [])]" by simp
  show "project_cache s1 g = Some pid"
    using assms i create_project_result [of h g s0 pid s1]
    by (auto simp: group_to_project_id_def split: option.splits sum.splits)
  show "calls s1 = calls s @ [(''list_projects'', JDict [])] \<or>
         calls s1 = calls s @ [(''list_projects'', JDict []), (''create_project'',
           JDict [(''name'', JStr g), (''description'', JStr (''Auto-created from group_id: '' @ g))])]"
    if "project_cache s g = None"
    using that assms i c create_project_result [of h g s0 pid s1]
    by (auto simp: group_to_project_id_def split: option.splits sum.splits)
qed

lemma group_to_project_id_cached:
  "project_cache s g = Some pid \<Longrightarrow> group_to_project_id h g s = (Inr pid, s)"
  by (simp add: group_to_project_id_def)

lemma forgetful_save_cached:
  assumes "project_cache s g = Some pid"
  shows "project_cache (snd (forgetful_save h body g kwargs s)) = project_cache s \<and>
         calls (snd (forgetful_save h body g kwargs s)) =
           calls s @ [(''create_memory'', create_memory_args body pid kwargs)]"
proof -
  let ?args = "create_memory_args body pid kwargs"
  obtain r s0 where i: "invoke (execute_forgetful_tool h) ''create_memory'' ?args s = (r, s0)"
    by (cases "invoke (execute_forgetful_tool h) ''create_memory'' ?args s")
  have "snd (forgetful_save h body g kwargs s) = s0"
    using i by (simp add: forgetful_save_def group_to_project_id_cached [OF assms] split: sum.splits)
  with invoke_frame [OF i] show ?thesis by simp
qed

text \<open>
  C5. For a namespace that is not in the cache, if a first resolution returns an
  identifier then a second resolution returns the same identifier from the cache, with
  no tool call and the backend unchanged; the first resolution made at most one
  \<open>create_project\<close> call; and two saves in succession, from the state before the first
  resolution, add to the calls of that resolution exactly their two \<open>create_memory\<close>
  calls, both with this project identifier.
\<close>

theorem namespace_resolved_once:
  assumes "project_cache s group_id = None"
    and "group_to_project_id h group_id s = (Inr project_id, s1)"
  shows "group_to_project_id h group_id s1 = (Inr project_id, s1) \<and>
         length (filter (\<lambda>c. fst c = ''create_project'') (calls s1)) \<le>
           Suc (length (filter (\<lambda>c. fst c = ''create_project'') (calls s))) \<and>
         calls (snd (forgetful_save h body2 group_id kwargs2
                  (snd (forgetful_save h body1 group_id kwargs1 s)))) =
           calls s1 @ [(''create_memory'', create_memory_args body1 project_id kwargs1),
                       (''create_memory'', create_memory_args body2 project_id kwargs2)]"
proof (intro conjI)
  have hit: "project_cache s1 group_id = Some project_id"
    using group_to_project_id_result(1) [OF assms(2)] .
  show "group_to_project_id h group_id s1 = (Inr project_id, s1)"
    using hit by (rule group_to_project_id_cached)
  show "length (filter (\<lambda>c. fst c = ''create_project'') (calls s1)) \<le>
           Suc (length (filter (\<lambda>c. fst c = ''create_project'') (calls s)))"
    using group_to_project_id_result(2) [OF assms(2) assms(1)] by auto
  let ?a = "snd (forgetful_save h body1 group_id kwargs1 s)"
  let ?m1 = "(''create_memory'', create_memory_args body1 project_id kwargs1)"
  obtain r s0 where i: "invoke (execute_forgetful_tool h) ''create_memory''
      (create_memory_args body1 project_id kwargs1) s1 = (r, s0)"
    by (cases "invoke (execute_forgetful_tool h) ''create_memory''
      (create_memory_args body1 project_id kwargs1) s1")
  have "?a = s0"
    using i assms(2) by (simp add: forgetful_save_def split: sum.splits)
  with invoke_frame [OF i] hit
  have a: "project_cache ?a group_id = Some project_id" "calls ?a = calls s1 @ [?m1]"
    by simp_all
  show "calls (snd (forgetful_save h body2 group_id kwargs2 ?a)) =
           calls s1 @ [?m1, (''create_memory'', create_memory_args body2 project_id kwargs2)]"
    using forgetful_save_cached [OF a(1), of h body2 kwargs2] a(2) by simp
qed

text \<open>On the example host, where the namespace \<open>grp\<close> gets project 1.\<close>

theorem namespace_resolved_once_witness:
  "project_cache start ''grp'' = None \<and>
   fst (group_to_project_id (demo_host [] (JDict [])) ''grp'' start) = Inr (JInt 1) \<and>
   fst (group_to_project_id (demo_host [] (JDict [])) ''grp''
          (snd (group_to_project_id (demo_host [] (JDict [])) ''grp'' start))) = Inr (JInt 1) \<and>
   length (filter (\<lambda>c. fst c = ''create_project'')
     (calls (snd (group_to_project_id (demo_host [] (JDict [])) ''grp'' start)))) \<le> 1"
proof -
  let ?h = "demo_host [] (JDict [])"
  let ?s1 = "snd (group_to_project_id ?h ''grp'' start)"
  have a: "project_cache start ''grp'' = None" by (simp add: start_def)
  have b1: "fst (group_to_project_id ?h ''grp'' start) = Inr (JInt 1)"
    by (simp add: group_to_project_id_def create_project_def demo_defs)
  then have b: "group_to_project_id ?h ''grp'' start = (Inr (JInt 1), ?s1)"
    by (simp add: prod_eq_iff)
  have c: "calls start = []" by (simp add: start_def)
  from namespace_resolved_once [OF a b]
  have "group_to_project_id ?h ''grp'' ?s1 = (Inr (JInt 1), ?s1)"
    and "length (filter (\<lambda>c. fst c = ''create_project'') (calls ?s1)) \<le>
           Suc (length (filter (\<lambda>c. fst c = ''create_project'') (calls start)))"
    by blast+
  with a b1 c show ?thesis by simp
qed

subsection \<open>The parsing loops\<close>

text \<open>
  If every record parses, the loop returns the parsed records in order; and whatever the
  loop returns was parsed from the records, one for one.
\<close>

lemma parse_loop_all2:
  assumes "\<And>r s. r \<in> set rs \<Longrightarrow> \<exists>m s'. f r s = (Inr m, s') \<and> P m r"
  shows "\<exists>ms s'. parse_loop f rs acc s = (Inr (acc @ ms), s') \<and> list_all2 P ms rs"
  using assms
proof (induction rs arbitrary: acc s)
  case Nil
  show ?case by simp
next
  case (Cons r rs)
  from Cons.prems [of r s] obtain m s1 where m: "f r s = (Inr m, s1)" "P m r"
    by auto
  from Cons.IH [of "acc @ [m]" s1] Cons.prems obtain ms s' where
    "parse_loop f rs (acc @ [m]) s1 = (Inr ((acc @ [m]) @ ms), s')" "list_all2 P ms rs"
    by auto
  with m show ?case
    by (intro exI [of _ "m # ms"] exI [of _ s']) simp
qed

lemma parse_loop_success:
  "parse_loop f rs acc s = (Inr out, s') \<Longrightarrow>
     \<exists>ms. out = acc @ ms \<and> list_all2 (\<lambda>m r. \<exists>s0 s1. f r s0 = (Inr m, s1)) ms rs"
proof (induction rs arbitrary: acc s)
  case Nil
  then show ?case by simp
next
  case (Cons r rs)
  from Cons.prems obtain m s1 where m: "f r s = (Inr m, s1)"
    and rest: "parse_loop f rs (acc @ [m]) s1 = (Inr out, s')"
    by (auto split: prod.splits sum.splits)
  from Cons.IH [OF rest] obtain ms where
    "out = (acc @ [m]) @ ms" "list_all2 (\<lambda>m r. \<exists>s0 s1. f r s0 = (Inr m, s1)) ms rs"
    by blast
  with m show ?case
    by (intro exI [of _ "m # ms"]) auto
qed

lemma parse_records_success:
  assumes "parse_records key f result s = (Inr ms, s')"
  shows "\<exists>resp rs. result = JDict resp \<and> py_iter (dict_get resp key (JList [])) = Inr rs \<and>
           list_all2 (\<lambda>m r. \<exists>s0 s1. f r s0 = (Inr m, s1)) ms rs"
proof -
  from assms obtain resp rs where r: "result = JDict resp"
    "py_iter (dict_get resp key (JList [])) = Inr rs" "parse_loop f rs [] s = (Inr ms, s')"
    by (auto simp: parse_records_def py_get_def split: json.splits sum.splits)
  from parse_loop_success [OF r(3)] r(1,2) show ?thesis by auto
qed

text \<open>A record without \<open>created_at\<close> gets the reading of the clock.\<close>

lemma parse_forgetful_memory_default:
  assumes "map_of kvs ''created_at'' = None"
    and "fromisoformat h (isoformat h (fst (now h (world s)))) = Some (fst (now h (world s)))"
  shows "parse_forgetful_memory h (JDict kvs) s =
     (Inr (forgetful_memory kvs (fst (now h (world s)))), s\<lparr>world := snd (now h (world s))\<rparr>)"
  using assms
  by (auto simp: parse_forgetful_memory_def read_clock_def from_iso_def dict_get_def
      split: prod.splits)

lemma parse_node_default:
  assumes "map_of kvs ''created_at'' = None"
    and "fromisoformat h (isoformat h (fst (now h (world s)))) = Some (fst (now h (world s)))"
  shows "parse_node h (JDict kvs) s =
     (Inr (node_memory kvs (fst (now h (world s)))), s\<lparr>world := snd (now h (world s))\<rparr>)"
  using assms
  by (auto simp: parse_node_def read_clock_def from_iso_def dict_get_def split: prod.splits)

text \<open>
  C6. Take a host on which a reading of the clock survives \<open>isoformat\<close> followed by
  \<open>fromisoformat\<close>, and a response whose records are dicts without the key
  \<open>created_at\<close>. Then \<open>_parse_forgetful_memories\<close> and \<open>_parse_nodes_to_memories\<close> do not
  raise: they return one \<open>Memory\<close> per record, in order, built from the record's fields
  with a reading of the clock as \<open>created_at\<close>. Every other field that is missing gets its
  default: on a record with no field at all the id and the content are the empty string,
  the importance is \<open>None\<close>, and the metadata holds the empty string for the title or the
  summary and empty lists for keywords, tags and linked ids.
\<close>

theorem parse_without_created_at:
  assumes clock: "\<And>w. fromisoformat h (isoformat h (fst (now h w))) = Some (fst (now h w))"
    and recs: "\<forall>r\<in>set rs. \<exists>kvs. r = JDict kvs \<and> map_of kvs ''created_at'' = None"
  shows "(\<exists>ms s'. parse_forgetful_memories h (JDict ((''memories'', JList rs) # other)) s = (Inr ms, s') \<and>
            list_all2 (\<lambda>m r. \<exists>kvs w. r = JDict kvs \<and> m = forgetful_memory kvs (fst (now h w))) ms rs) \<and>
         (\<exists>ms s'. parse_nodes_to_memories h (JDict ((''nodes'', JList rs) # other)) s = (Inr ms, s') \<and>
            list_all2 (\<lambda>m r. \<exists>kvs w. r = JDict kvs \<and> m = node_memory kvs (fst (now h w))) ms rs) \<and>
         forgetful_memory [] d =
           \<lparr>memory_id = JStr '''', content = JStr '''', created_at = d, importance = JNull,
            metadata = [(''title'', JStr ''''), (''keywords'', JList []), (''tags'', JList []),
                        (''linked_memory_ids'', JList [])]\<rparr> \<and>
         node_memory [] d =
           \<lparr>memory_id = JStr '''', content = JStr '''', created_at = d, importance = JNull,
            metadata = [(''summary'', JStr '''')]\<rparr>"
proof (intro conjI)
  have f: "\<exists>m s'. parse_forgetful_memory h r s0 = (Inr m, s') \<and>
      (\<exists>kvs w. r = JDict kvs \<and> m = forgetful_memory kvs (fst (now h w)))"
    if "r \<in> set rs" for r and s0 :: "('a, 'c) env_scheme"
  proof -
    from recs that obtain kvs where "r = JDict kvs" "map_of kvs ''created_at'' = None" by blast
    with parse_forgetful_memory_default [OF this(2) clock, of s0] show ?thesis by auto
  qed
  from parse_loop_all2 [of rs "parse_forgetful_memory h", OF f, of "[]" s]
  show "\<exists>ms s'. parse_forgetful_memories h (JDict ((''memories'', JList rs) # other)) s = (Inr ms, s') \<and>
      list_all2 (\<lambda>m r. \<exists>kvs w. r = JDict kvs \<and> m = forgetful_memory kvs (fst (now h w))) ms rs"
    by (simp add: parse_forgetful_memories_def parse_records_def py_get_def dict_get_def py_iter_def)
  have n: "\<exists>m s'. parse_node h r s0 = (Inr m, s') \<and>
      (\<exists>kvs w. r = JDict kvs \<and> m = node_memory kvs (fst (now h w)))"
    if "r \<in> set rs" for r and s0 :: "('a, 'c) env_scheme"
  proof -
    from recs that obtain kvs where "r = JDict kvs" "map_of kvs ''created_at'' = None" by blast
    with parse_node_default [OF this(2) clock, of s0] show ?thesis by auto
  qed
  from parse_loop_all2 [of rs "parse_node h", OF n, of "[]" s]
  show "\<exists>ms s'. parse_nodes_to_memories h (JDict ((''nodes'', JList rs) # other)) s = (Inr ms, s') \<and>
      list_all2 (\<lambda>m r. \<exists>kvs w. r = JDict kvs \<and> m = node_memory kvs (fst (now h w))) ms rs"
    by (simp add: parse_nodes_to_memories_def parse_records_def py_get_def dict_get_def py_iter_def)
qed (simp_all add: forgetful_memory_def node_memory_def dict_get_def py_str_def)
text \<open>
  On the example host, a Forgetful record that holds only an integer id and a Graphiti
  node that holds only its uuid: the clock reads \<open>2024-01-01T00:00:00.000000\<close> and moves
  on by one tick.
\<close>

theorem parse_without_created_at_witness:
  "(\<exists>ms s'. parse_forgetful_memories (demo_host [] JNull)
              (JDict [(''memories'', JList [JDict [(''id'', JInt 7)]])]) start = (Inr ms, s') \<and>
      list_all2 (\<lambda>m r. \<exists>kvs w. r = JDict kvs \<and>
                   m = forgetful_memory kvs (fst (now (demo_host [] JNull) w)))
        ms [JDict [(''id'', JInt 7)]]) \<and>
   parse_forgetful_memories (demo_host [] JNull)
       (JDict [(''memories'', JList [JDict [(''id'', JInt 7)]])]) start =
     (Inr [\<lparr>memory_id = JStr ''7'', content = JStr '''',
            created_at = ''2024-01-01T00:00:00.000000'', importance = JNull,
            metadata = [(''title'', JStr ''''), (''keywords'', JList []), (''tags'', JList []),
                        (''linked_memory_ids'', JList [])]\<rparr>],
      start\<lparr>world := (1, [])\<rparr>) \<and>
   parse_nodes_to_memories (demo_host [] JNull)
       (JDict [(''nodes'', JList [JDict [(''uuid'', JStr ''n1'')]])]) start =
     (Inr [\<lparr>memory_id = JStr ''n1'', content = JStr '''',
            created_at = ''2024-01-01T00:00:00.000000'', importance = JNull,
            metadata = [(''summary'', JStr '''')]\<rparr>],
      start\<lparr>world := (1, [])\<rparr>)"
proof -
  let ?h = "demo_host [] JNull"
  have clock: "fromisoformat ?h (isoformat ?h (fst (now ?h w))) = Some (fst (now ?h w))" for w
    by (simp add: demo_host_def)
  have recs: "\<forall>r\<in>set [JDict [(''id'', JInt 7)]]. \<exists>kvs. r = JDict kvs \<and> map_of kvs ''created_at'' = None"
    by simp
  have first: "\<exists>ms s'. parse_forgetful_memories ?h
              (JDict [(''memories'', JList [JDict [(''id'', JInt 7)]])]) start = (Inr ms, s') \<and>
      list_all2 (\<lambda>m r. \<exists>kvs w. r = JDict kvs \<and> m = forgetful_memory kvs (fst (now ?h w)))
        ms [JDict [(''id'', JInt 7)]]"
    using parse_without_created_at [of ?h "[JDict [(''id'', JInt 7)]]" "[]" start, OF clock recs]
    by (rule conjunct1)
  have second: "parse_forgetful_memories ?h
       (JDict [(''memories'', JList [JDict [(''id'', JInt 7)]])]) start =
     (Inr [\<lparr>memory_id = JStr ''7'', content = JStr '''',
            created_at = ''2024-01-01T00:00:00.000000'', importance = JNull,
            metadata = [(''title'', JStr ''''), (''keywords'', JList []), (''tags'', JList []),
                        (''linked_memory_ids'', JList [])]\<rparr>],
      start\<lparr>world := (1, [])\<rparr>)"
    by (simp add: parse_forgetful_memories_def parse_records_def parse_forgetful_memory_def
        forgetful_memory_def read_clock_def from_iso_def py_str_def int_str_def
        nat_digits.simps hex_digit_def demo_defs)
  have third: "parse_nodes_to_memories ?h
       (JDict [(''nodes'', JList [JDict [(''uuid'', JStr ''n1'')]])]) start =
     (Inr [\<lparr>memory_id = JStr ''n1'', content = JStr '''',
            created_at = ''2024-01-01T00:00:00.000000'', importance = JNull,
            metadata = [(''summary'', JStr '''')]\<rparr>],
      start\<lparr>world := (1, [])\<rparr>)"
    by (simp add: parse_nodes_to_memories_def parse_records_def parse_node_def
        node_memory_def read_clock_def from_iso_def hex_digit_def demo_defs)
  show ?thesis by (rule conjI [OF first conjI [OF second third]])
qed

text \<open>What a record parser returns was built from the record's own fields.\<close>

lemma parse_forgetful_memory_fields:
  assumes "parse_forgetful_memory h r s0 = (Inr m, s1)"
  shows "\<exists>kvs. r = JDict kvs \<and> m = forgetful_memory kvs (created_at m) \<and>
           (\<forall>c. map_of kvs ''created_at'' = Some c \<longrightarrow> from_iso h c = Inr (created_at m))"
  using assms
  by (auto simp: parse_forgetful_memory_def dict_get_def forgetful_memory_def
      split: json.splits prod.splits sum.splits)

lemma parse_node_fields:
  assumes "parse_node h r s0 = (Inr m, s1)"
  shows "\<exists>kvs. r = JDict kvs \<and> m = node_memory kvs (created_at m) \<and>
           (\<forall>c. map_of kvs ''created_at'' = Some c \<longrightarrow> from_iso h c = Inr (created_at m))"
  using assms
  by (auto simp: parse_node_def dict_get_def node_memory_def
      split: json.splits prod.splits sum.splits)

lemma parse_episode_fields:
  assumes "parse_episode h r s0 = (Inr m, s1)"
  shows "\<exists>kvs. r = JDict kvs \<and> m = episode_memory kvs (created_at m) \<and>
           (\<forall>c. map_of kvs ''created_at'' = Some c \<longrightarrow> from_iso h c = Inr (created_at m))"
  using assms
  by (auto simp: parse_episode_def dict_get_def episode_memory_def
      split: json.splits prod.splits sum.splits)

subsection \<open>query and the limit\<close>

text \<open>
  The claim C8 asks for at most \<open>limit\<close> memories whatever the response holds. On the
  example host two stored memories match \<open>auth\<close> and the service returns both: with limit
  1 both backends return two memories.
\<close>

theorem query_returns_every_record_counterexample:
  "fst (forgetful_query (demo_host auth_store JNull) ''auth'' ''grp'' 1 start) =
     Inr [forgetful_memory (stored_fields ''1'' ''2024-05-01T10:00:00.000000'' [''auth''] [])
            ''2024-05-01T10:00:00.000000'',
          forgetful_memory (stored_fields ''2'' ''2024-05-02T10:00:00.000000'' [''auth''] [])
            ''2024-05-02T10:00:00.000000''] \<and>
   fst (graphiti_query (demo_host auth_store JNull) ''auth'' ''grp'' 1 start) =
     Inr [node_memory (stored_fields ''1'' ''2024-05-01T10:00:00.000000'' [''auth''] [])
            ''2024-05-01T10:00:00.000000'',
          node_memory (stored_fields ''2'' ''2024-05-02T10:00:00.000000'' [''auth''] [])
            ''2024-05-02T10:00:00.000000''] \<and>
   \<not> (2::int) \<le> 1"
  by (simp add: forgetful_query_def graphiti_query_def check_mcp_available_def
      group_to_project_id_def create_project_def query_memory_args_def search_nodes_args_def
      parse_forgetful_memories_def parse_nodes_to_memories_def parse_records_def
      parse_forgetful_memory_def parse_node_def read_clock_def from_iso_def auth_store_def
      demo_defs)

text \<open>
  C8, as amended. A \<open>query\<close> that returns has sent the limit to the service (as \<open>k\<close> of
  \<open>query_memory\<close>, as \<open>max_nodes\<close> of \<open>search_nodes\<close>) and returns exactly one memory per
  record of the response: the result is as long as the response, so it is at most
  \<open>limit\<close> long when the service kept to the limit it was sent.
\<close>

theorem query_length_is_response_length:
  "(forgetful_query h query group_id limit s = (Inr ms, s') \<longrightarrow>
      (\<exists>project_id s1 response s2 rs.
         group_to_project_id h group_id s = (Inr project_id, s1) \<and>
         invoke (execute_forgetful_tool h) ''query_memory''
           (query_memory_args query project_id limit) s1 = (Inr (JDict response), s2) \<and>
         py_iter (dict_get response ''memories'' (JList [])) = Inr rs \<and>
         length ms = length rs)) \<and>
   (graphiti_query h query group_id limit g = (Inr ns, g') \<longrightarrow>
      (\<exists>response g1 rs.
         invoke (graphiti_tool h) ''search_nodes''
           (search_nodes_args query group_id limit) g = (Inr (JDict response), g1) \<and>
         py_iter (dict_get response ''nodes'' (JList [])) = Inr rs \<and>
         length ns = length rs))"
proof (intro conjI impI)
  assume q: "forgetful_query h query group_id limit s = (Inr ms, s')"
  then obtain project_id s1 result s2 where
    a: "group_to_project_id h group_id s = (Inr project_id, s1)"
    and b: "invoke (execute_forgetful_tool h) ''query_memory''
           (query_memory_args query project_id limit) s1 = (Inr result, s2)"
    and c: "parse_forgetful_memories h result s2 = (Inr ms, s')"
    by (auto simp: forgetful_query_def split: prod.splits sum.splits)
  from parse_records_success [OF c [unfolded parse_forgetful_memories_def]]
  obtain response rs where "result = JDict response"
    "py_iter (dict_get response ''memories'' (JList [])) = Inr rs" "length ms = length rs"
    by (auto dest: list_all2_lengthD)
  with a b show "\<exists>project_id s1 response s2 rs.
         group_to_project_id h group_id s = (Inr project_id, s1) \<and>
         invoke (execute_forgetful_tool h) ''query_memory''
           (query_memory_args query project_id limit) s1 = (Inr (JDict response), s2) \<and>
         py_iter (dict_get response ''memories'' (JList [])) = Inr rs \<and>
         length ms = length rs"
    by blast
next
  assume q: "graphiti_query h query group_id limit g = (Inr ns, g')"
  then obtain result g1 where
    b: "invoke (graphiti_tool h) ''search_nodes''
           (search_nodes_args query group_id limit) g = (Inr result, g1)"
    and c: "parse_nodes_to_memories h result g1 = (Inr ns, g')"
    by (auto simp: graphiti_query_def split: prod.splits sum.splits)
  from parse_records_success [OF c [unfolded parse_nodes_to_memories_def]]
  obtain response rs where "result = JDict response"
    "py_iter (dict_get response ''nodes'' (JList [])) = Inr rs" "length ns = length rs"
    by (auto dest: list_all2_lengthD)
  with b show "\<exists>response g1 rs.
         invoke (graphiti_tool h) ''search_nodes''
           (search_nodes_args query group_id limit) g = (Inr (JDict response), g1) \<and>
         py_iter (dict_get response ''nodes'' (JList [])) = Inr rs \<and>
         length ns = length rs"
    by blast
qed
text \<open>On the example host, for the query \<open>auth\<close> with limit 5.\<close>

theorem query_length_is_response_length_witness:
  "(\<exists>project_id s1 response s2 rs.
      group_to_project_id (demo_host auth_store JNull) ''grp'' start = (Inr project_id, s1) \<and>
      invoke (execute_forgetful_tool (demo_host auth_store JNull)) ''query_memory''
        (query_memory_args ''auth'' project_id 5) s1 = (Inr (JDict response), s2) \<and>
      py_iter (dict_get response ''memories'' (JList [])) = Inr rs \<and>
      length [forgetful_memory (stored_fields ''1'' ''2024-05-01T10:00:00.000000'' [''auth''] [])
                ''2024-05-01T10:00:00.000000'',
              forgetful_memory (stored_fields ''2'' ''2024-05-02T10:00:00.000000'' [''auth''] [])
                ''2024-05-02T10:00:00.000000''] = length rs) \<and>
   (\<exists>response g1 rs.
      invoke (graphiti_tool (demo_host auth_store JNull)) ''search_nodes''
        (search_nodes_args ''auth'' ''grp'' 5) start = (Inr (JDict response), g1) \<and>
      py_iter (dict_get response ''nodes'' (JList [])) = Inr rs \<and>
      length [node_memory (stored_fields ''1'' ''2024-05-01T10:00:00.000000'' [''auth''] [])
                ''2024-05-01T10:00:00.000000'',
              node_memory (stored_fields ''2'' ''2024-05-02T10:00:00.000000'' [''auth''] [])
                ''2024-05-02T10:00:00.000000''] = length rs)"
proof -
  let ?h = "demo_host auth_store JNull"
  let ?f1 = "stored_fields ''1'' ''2024-05-01T10:00:00.000000'' [''auth''] []"
  let ?f2 = "stored_fields ''2'' ''2024-05-02T10:00:00.000000'' [''auth''] []"
  let ?ms = "[forgetful_memory ?f1 ''2024-05-01T10:00:00.000000'',
              forgetful_memory ?f2 ''2024-05-02T10:00:00.000000'']"
  let ?ns = "[node_memory ?f1 ''2024-05-01T10:00:00.000000'',
              node_memory ?f2 ''2024-05-02T10:00:00.000000'']"
  have "fst (forgetful_query ?h ''auth'' ''grp'' 5 start) = Inr ?ms"
    by (simp add: forgetful_query_def group_to_project_id_def create_project_def
        query_memory_args_def parse_forgetful_memories_def parse_records_def
        parse_forgetful_memory_def read_clock_def from_iso_def auth_store_def demo_defs)
  then have a: "forgetful_query ?h ''auth'' ''grp'' 5 start =
      (Inr ?ms, snd (forgetful_query ?h ''auth'' ''grp'' 5 start))"
    by (simp add: prod_eq_iff)
  have "fst (graphiti_query ?h ''auth'' ''grp'' 5 start) = Inr ?ns"
    by (simp add: graphiti_query_def check_mcp_available_def search_nodes_args_def
        parse_nodes_to_memories_def parse_records_def parse_node_def read_clock_def
        from_iso_def auth_store_def demo_defs)
  then have b: "graphiti_query ?h ''auth'' ''grp'' 5 start =
      (Inr ?ns, snd (graphiti_query ?h ''auth'' ''grp'' 5 start))"
    by (simp add: prod_eq_iff)
  note t = query_length_is_response_length [of ?h "''auth''" "''grp''" 5 start ?ms
      "snd (forgetful_query ?h ''auth'' ''grp'' 5 start)" start ?ns
      "snd (graphiti_query ?h ''auth'' ''grp'' 5 start)"]
  show ?thesis
    by (rule conjI [OF mp [OF conjunct1 [OF t] a] mp [OF conjunct2 [OF t] b]])
qed

subsection \<open>list_recent, the limit and the order\<close>

text \<open>
  The claim C7 asks for at most \<open>limit\<close> memories, newest first. The example host returns
  its store as it is, the older memory first: with limit 1 both backends return the two
  memories, and the one of 1 May before the one of 2 May.
\<close>

theorem list_recent_returns_response_counterexample:
  "fst (forgetful_list_recent (demo_host auth_store JNull) ''grp'' 1 start) =
     Inr [forgetful_memory (stored_fields ''1'' ''2024-05-01T10:00:00.000000'' [''auth''] [])
            ''2024-05-01T10:00:00.000000'',
          forgetful_memory (stored_fields ''2'' ''2024-05-02T10:00:00.000000'' [''auth''] [])
            ''2024-05-02T10:00:00.000000''] \<and>
   fst (graphiti_list_recent (demo_host auth_store JNull) ''grp'' 1 start) =
     Inr [episode_memory (stored_fields ''1'' ''2024-05-01T10:00:00.000000'' [''auth''] [])
            ''2024-05-01T10:00:00.000000'',
          episode_memory (stored_fields ''2'' ''2024-05-02T10:00:00.000000'' [''auth''] [])
            ''2024-05-02T10:00:00.000000''] \<and>
   \<not> (2::int) \<le> 1"
  by (simp add: forgetful_list_recent_def graphiti_list_recent_def check_mcp_available_def
      group_to_project_id_def create_project_def list_memories_args_def get_episodes_args_def
      parse_forgetful_memories_def parse_episodes_to_memories_def parse_records_def
      parse_forgetful_memory_def parse_episode_def read_clock_def from_iso_def auth_store_def
      demo_defs)

text \<open>
  C7, as amended. A \<open>list_recent\<close> that returns has asked the service for the limit
  (Forgetful: \<open>limit\<close>, sorted by \<open>created_at\<close> in descending order; Graphiti:
  \<open>max_episodes\<close>, with no order) and returns the records of the response one for one and
  in the response's order: the memory at each position is built from the fields of the
  record at that position, and its \<open>created_at\<close> is the record's own when the record has
  one. The adapter neither cuts nor sorts, so the result is at most \<open>limit\<close> long and
  newest first when the response is.
\<close>

theorem list_recent_follows_response:
  fixes h :: "('w, 'dt) host" and s :: "'w forgetful_backend" and g :: "('w, 'm) env_scheme"
  shows "(forgetful_list_recent h group_id limit s = (Inr ms, s') \<longrightarrow>
      (\<exists>project_id s1 response s2 rs.
         group_to_project_id h group_id s = (Inr project_id, s1) \<and>
         invoke (execute_forgetful_tool h) ''list_memories''
           (JDict [(''project_ids'', project_ids project_id JNull), (''limit'', JInt limit),
                   (''sort_by'', JStr ''created_at''), (''sort_order'', JStr ''desc'')]) s1 =
           (Inr (JDict response), s2) \<and>
         py_iter (dict_get response ''memories'' (JList [])) = Inr rs \<and>
         list_all2
           (\<lambda>m r. \<exists>kvs. r = JDict kvs \<and> m = forgetful_memory kvs (created_at m) \<and>
              (\<forall>c. map_of kvs ''created_at'' = Some c \<longrightarrow> from_iso h c = Inr (created_at m)))
           ms rs)) \<and>
   (graphiti_list_recent h group_id limit g = (Inr ns, g') \<longrightarrow>
      (\<exists>response g1 rs.
         invoke (graphiti_tool h) ''get_episodes''
           (JDict [(''group_ids'', JList [JStr group_id]), (''max_episodes'', JInt limit)]) g =
           (Inr (JDict response), g1) \<and>
         py_iter (dict_get response ''episodes'' (JList [])) = Inr rs \<and>
         list_all2
           (\<lambda>m r. \<exists>kvs. r = JDict kvs \<and> m = episode_memory kvs (created_at m) \<and>
              (\<forall>c. map_of kvs ''created_at'' = Some c \<longrightarrow> from_iso h c = Inr (created_at m)))
           ns rs))"
proof (intro conjI impI)
  assume "forgetful_list_recent h group_id limit s = (Inr ms, s')"
  then obtain project_id s1 result s2 where
    a: "group_to_project_id h group_id s = (Inr project_id, s1)"
    and b: "invoke (execute_forgetful_tool h) ''list_memories''
           (list_memories_args project_id limit) s1 = (Inr result, s2)"
    and c: "parse_forgetful_memories h result s2 = (Inr ms, s')"
    by (auto simp: forgetful_list_recent_def split: prod.splits sum.splits)
  from parse_records_success [OF c [unfolded parse_forgetful_memories_def]]
  obtain response rs where r: "result = JDict response"
    "py_iter (dict_get response ''memories'' (JList [])) = Inr rs"
    "list_all2 (\<lambda>m r. \<exists>(s0 :: 'w forgetful_backend) s1.
        parse_forgetful_memory h r s0 = (Inr m, s1)) ms rs"
    by blast
  from r(3) have "list_all2
           (\<lambda>m r. \<exists>kvs. r = JDict kvs \<and> m = forgetful_memory kvs (created_at m) \<and>
              (\<forall>c. map_of kvs ''created_at'' = Some c \<longrightarrow> from_iso h c = Inr (created_at m)))
           ms rs"
    by (rule list_all2_mono) (elim exE, rule parse_forgetful_memory_fields)
  with a b [unfolded list_memories_args_def r(1)] r(2) show "\<exists>project_id s1 response s2 rs.
         group_to_project_id h group_id s = (Inr project_id, s1) \<and>
         invoke (execute_forgetful_tool h) ''list_memories''
           (JDict [(''project_ids'', project_ids project_id JNull), (''limit'', JInt limit),
                   (''sort_by'', JStr ''created_at''), (''sort_order'', JStr ''desc'')]) s1 =
           (Inr (JDict response), s2) \<and>
         py_iter (dict_get response ''memories'' (JList [])) = Inr rs \<and>
         list_all2
           (\<lambda>m r. \<exists>kvs. r = JDict kvs \<and> m = forgetful_memory kvs (created_at m) \<and>
              (\<forall>c. map_of kvs ''created_at'' = Some c \<longrightarrow> from_iso h c = Inr (created_at m)))
           ms rs"
    by iprover
next
  assume "graphiti_list_recent h group_id limit g = (Inr ns, g')"
  then obtain result g1 where
    b: "invoke (graphiti_tool h) ''get_episodes'' (get_episodes_args group_id limit) g =
          (Inr result, g1)"
    and c: "parse_episodes_to_memories h result g1 = (Inr ns, g')"
    by (auto simp: graphiti_list_recent_def split: prod.splits sum.splits)
  from parse_records_success [OF c [unfolded parse_episodes_to_memories_def]]
  obtain response rs where r: "result = JDict response"
    "py_iter (dict_get response ''episodes'' (JList [])) = Inr rs"
    "list_all2 (\<lambda>m r. \<exists>(s0 :: ('w, 'm) env_scheme) s1.
        parse_episode h r s0 = (Inr m, s1)) ns rs"
    by blast
  from r(3) have "list_all2
           (\<lambda>m r. \<exists>kvs. r = JDict kvs \<and> m = episode_memory kvs (created_at m) \<and>
              (\<forall>c. map_of kvs ''created_at'' = Some c \<longrightarrow> from_iso h c = Inr (created_at m)))
           ns rs"
    by (rule list_all2_mono) (elim exE, rule parse_episode_fields)
  with b [unfolded get_episodes_args_def r(1)] r(2) show "\<exists>response g1 rs.
         invoke (graphiti_tool h) ''get_episodes''
           (JDict [(''group_ids'', JList [JStr group_id]), (''max_episodes'', JInt limit)]) g =
           (Inr (JDict response), g1) \<and>
         py_iter (dict_get response ''episodes'' (JList [])) = Inr rs \<and>
         list_all2
           (\<lambda>m r. \<exists>kvs. r = JDict kvs \<and> m = episode_memory kvs (created_at m) \<and>
              (\<forall>c. map_of kvs ''created_at'' = Some c \<longrightarrow> from_iso h c = Inr (created_at m)))
           ns rs"
    by iprover
qed
text \<open>On the example host, with limit 5.\<close>

theorem list_recent_follows_response_witness:
  "(\<exists>project_id s1 response s2 rs.
      group_to_project_id (demo_host auth_store JNull) ''grp'' start = (Inr project_id, s1) \<and>
      invoke (execute_forgetful_tool (demo_host auth_store JNull)) ''list_memories''
        (JDict [(''project_ids'', project_ids project_id JNull), (''limit'', JInt 5),
                (''sort_by'', JStr ''created_at''), (''sort_order'', JStr ''desc'')]) s1 =
        (Inr (JDict response), s2) \<and>
      py_iter (dict_get response ''memories'' (JList [])) = Inr rs \<and>
      list_all2
        (\<lambda>m r. \<exists>kvs. r = JDict kvs \<and> m = forgetful_memory kvs (created_at m) \<and>
           (\<forall>c. map_of kvs ''created_at'' = Some c \<longrightarrow>
                from_iso (demo_host auth_store JNull) c = Inr (created_at m)))
        [forgetful_memory (stored_fields ''1'' ''2024-05-01T10:00:00.000000'' [''auth''] [])
           ''2024-05-01T10:00:00.000000'',
         forgetful_memory (stored_fields ''2'' ''2024-05-02T10:00:00.000000'' [''auth''] [])
           ''2024-05-02T10:00:00.000000''] rs) \<and>
   (\<exists>response g1 rs.
      invoke (graphiti_tool (demo_host auth_store JNull)) ''get_episodes''
        (JDict [(''group_ids'', JList [JStr ''grp'']), (''max_episodes'', JInt 5)]) start =
        (Inr (JDict response), g1) \<and>
      py_iter (dict_get response ''episodes'' (JList [])) = Inr rs \<and>
      list_all2
        (\<lambda>m r. \<exists>kvs. r = JDict kvs \<and> m = episode_memory kvs (created_at m) \<and>
           (\<forall>c. map_of kvs ''created_at'' = Some c \<longrightarrow>
                from_iso (demo_host auth_store JNull) c = Inr (created_at m)))
        [episode_memory (stored_fields ''1'' ''2024-05-01T10:00:00.000000'' [''auth''] [])
           ''2024-05-01T10:00:00.000000'',
         episode_memory (stored_fields ''2'' ''2024-05-02T10:00:00.000000'' [''auth''] [])
           ''2024-05-02T10:00:00.000000''] rs)"
proof -
  let ?h = "demo_host auth_store JNull"
  let ?f1 = "stored_fields ''1'' ''2024-05-01T10:00:00.000000'' [''auth''] []"
  let ?f2 = "stored_fields ''2'' ''2024-05-02T10:00:00.000000'' [''auth''] []"
  let ?ms = "[forgetful_memory ?f1 ''2024-05-01T10:00:00.000000'',
              forgetful_memory ?f2 ''2024-05-02T10:00:00.000000'']"
  let ?ns = "[episode_memory ?f1 ''2024-05-01T10:00:00.000000'',
              episode_memory ?f2 ''2024-05-02T10:00:00.000000'']"
  have "fst (forgetful_list_recent ?h ''grp'' 5 start) = Inr ?ms"
    by (simp add: forgetful_list_recent_def group_to_project_id_def create_project_def
        list_memories_args_def parse_forgetful_memories_def parse_records_def
        parse_forgetful_memory_def read_clock_def from_iso_def auth_store_def demo_defs)
  then have a: "forgetful_list_recent ?h ''grp'' 5 start =
      (Inr ?ms, snd (forgetful_list_recent ?h ''grp'' 5 start))"
    by (simp add: prod_eq_iff)
  have "fst (graphiti_list_recent ?h ''grp'' 5 start) = Inr ?ns"
    by (simp add: graphiti_list_recent_def check_mcp_available_def get_episodes_args_def
        parse_episodes_to_memories_def parse_records_def parse_episode_def read_clock_def
        from_iso_def auth_store_def demo_defs)
  then have b: "graphiti_list_recent ?h ''grp'' 5 start =
      (Inr ?ns, snd (graphiti_list_recent ?h ''grp'' 5 start))"
    by (simp add: prod_eq_iff)
  note t = list_recent_follows_response [of ?h "''grp''" 5 start ?ms
      "snd (forgetful_list_recent ?h ''grp'' 5 start)" start ?ns
      "snd (graphiti_list_recent ?h ''grp'' 5 start)"]
  show ?thesis
    by (rule conjI [OF mp [OF conjunct1 [OF t] a] mp [OF conjunct2 [OF t] b]])
qed

subsection \<open>The explorer\<close>

text \<open>
  What the loop over the memories of one query adds: memories of that query, each id
  once and none that was visited before; their ids, to \<open>visited\<close>; and edges that start
  at these memories.
\<close>

lemma explore_memories_result:
  assumes "explore_memories cur depth ms (visited, ns, es, queue) = Inr (visited', ns', es', queue')"
  shows "\<exists>new added. ns' = ns @ new \<and> set new \<subseteq> set ms \<and> distinct (map memory_id new) \<and>
           memory_id ` set new \<inter> visited = {} \<and> visited' = visited \<union> memory_id ` set new \<and>
           es' = es @ added \<and> source ` set added \<subseteq> memory_id ` set new"
  using assms
proof (induction ms arbitrary: visited ns es queue)
  case Nil
  then show ?case by simp
next
  case (Cons m ms)
  from Cons.prems have h: "hashable (memory_id m)"
    by (auto split: if_splits)
  show ?case
  proof (cases "memory_id m \<in> visited")
    case True
    with Cons.prems h have
      "explore_memories cur depth ms (visited, ns, es, queue) = Inr (visited', ns', es', queue')"
      by simp
    from Cons.IH [OF this] obtain new added where
      "ns' = ns @ new" "set new \<subseteq> set ms" "distinct (map memory_id new)"
      "memory_id ` set new \<inter> visited = {}" "visited' = visited \<union> memory_id ` set new"
      "es' = es @ added" "source ` set added \<subseteq> memory_id ` set new"
      by blast
    then show ?thesis
      by (intro exI [of _ new] exI [of _ added]) auto
  next
    case False
    with Cons.prems h obtain ls where
      rest: "explore_memories cur depth ms
        (insert (memory_id m) visited, ns @ [m], es @ map (linked_to m) ls,
         queue @ (if cur < depth then map (\<lambda>l. (py_str l, cur + 1)) ls else [])) =
        Inr (visited', ns', es', queue')"
      by (auto simp: explore_links_eq split: sum.splits)
    from Cons.IH [OF rest] obtain new added where n:
      "ns' = (ns @ [m]) @ new" "set new \<subseteq> set ms" "distinct (map memory_id new)"
      "memory_id ` set new \<inter> insert (memory_id m) visited = {}"
      "visited' = insert (memory_id m) visited \<union> memory_id ` set new"
      "es' = (es @ map (linked_to m) ls) @ added" "source ` set added \<subseteq> memory_id ` set new"
      by blast
    have "source ` set (map (linked_to m) ls @ added) \<subseteq> memory_id ` set (m # new)"
      using n(7) by (auto simp: linked_to_def)
    with n False show ?thesis
      by (intro exI [of _ "m # new"] exI [of _ "map (linked_to m) ls @ added"]) auto
  qed
qed

text \<open>The loop raises only on an id that cannot be hashed or on links that cannot be iterated.\<close>

lemma explore_memories_returns:
  assumes "\<forall>m\<in>set ms. hashable (memory_id m) \<and>
             (\<exists>ls. py_iter (dict_get (metadata m) ''linked_memory_ids'' (JList [])) = Inr ls)"
  shows "\<exists>r. explore_memories cur depth ms acc = Inr r"
  using assms
proof (induction ms arbitrary: acc)
  case Nil
  show ?case by (cases acc rule: prod_cases4) simp
next
  case (Cons m ms)
  obtain visited ns es queue where acc: "acc = (visited, ns, es, queue)"
    by (cases acc rule: prod_cases4)
  from Cons.prems obtain ls where
    m: "hashable (memory_id m)"
      "py_iter (dict_get (metadata m) ''linked_memory_ids'' (JList [])) = Inr ls"
    by auto
  from Cons.prems have rest: "\<forall>m\<in>set ms. hashable (memory_id m) \<and>
      (\<exists>ls. py_iter (dict_get (metadata m) ''linked_memory_ids'' (JList [])) = Inr ls)"
    by simp
  show ?case
    using m Cons.IH [OF rest] by (simp add: acc explore_links_eq)
qed

text \<open>
  Throughout the \<open>while\<close> loop \<open>visited\<close> holds the ids of the nodes, no two nodes
  share an id, and every edge starts at a node.
\<close>

lemma explore_loop_invariant:
  assumes "explore_loop h g depth queue (visited, ns, es) s = (Inr kg, s')"
    and "visited = memory_id ` set ns" and "distinct (map memory_id ns)"
    and "source ` set es \<subseteq> memory_id ` set ns"
  shows "distinct (map memory_id (nodes kg)) \<and>
         source ` set (edges kg) \<subseteq> memory_id ` set (nodes kg)"
  using assms
proof (induction h g depth queue "(visited, ns, es)" s arbitrary: visited ns es
    rule: explore_loop.induct)
  case (1 h g depth visited ns es s)
  then show ?case by (auto simp: image_subset_iff)
next
  case (2 h g depth qt cur queue visited ns es s)
  show ?case
  proof (cases "cur > depth")
    case True
    with "2.prems" show ?thesis by (auto simp: image_subset_iff)
  next
    case False
    with "2.prems"(1) obtain memories s1 visited' ns' es' queue' where
      q: "forgetful_query h qt g 5 s = (Inr memories, s1)"
      and m: "explore_memories cur depth memories (visited, ns, es, queue) =
                Inr (visited', ns', es', queue')"
      and l: "explore_loop h g depth queue' (visited', ns', es') s1 = (Inr kg, s')"
      by (auto split: prod.splits sum.splits)
    from explore_memories_result [OF m] obtain new added where n:
      "ns' = ns @ new" "distinct (map memory_id new)"
      "memory_id ` set new \<inter> visited = {}" "visited' = visited \<union> memory_id ` set new"
      "es' = es @ added" "source ` set added \<subseteq> memory_id ` set new"
      by blast
    have a: "visited' = memory_id ` set ns'"
      using n "2.prems"(2) by auto
    have b: "distinct (map memory_id ns')"
      using n "2.prems"(2,3) by auto
    have c: "source ` set es' \<subseteq> memory_id ` set ns'"
      using n "2.prems"(4) by auto
    from "2.hyps" [OF False q [symmetric] refl m refl refl refl l a b c]
    show ?thesis .
  qed
qed

lemma forgetful_explore_nodes_distinct:
  assumes "forgetful_explore h starting_point group_id depth s = (Inr kg, s')"
  shows "distinct (map memory_id (nodes kg)) \<and>
         source ` set (edges kg) \<subseteq> memory_id ` set (nodes kg)"
  using explore_loop_invariant [OF assms [unfolded forgetful_explore_def]] by simp

text \<open>With depth 0 the loop runs once: one query, one round over its memories.\<close>

lemma forgetful_explore_zero:
  "forgetful_explore h starting_point group_id 0 s =
     (case forgetful_query h starting_point group_id 5 s of
        (Inl e, s1) \<Rightarrow> (Inl e, s1)
      | (Inr ms, s1) \<Rightarrow>
          (case explore_memories 0 0 ms ({}, [], [], []) of
             Inl e \<Rightarrow> (Inl e, s1)
           | Inr (visited, ns, es, queue) \<Rightarrow> (Inr \<lparr>nodes = ns, edges = es\<rparr>, s1)))"
  by (auto simp: forgetful_explore_def split: prod.splits sum.splits
      dest!: explore_memories_queue)

text \<open>
  C2. With depth 0, \<open>ForgetfulBackend.explore\<close> leaves the backend as the one initial
  query leaves it, so no other tool call is made. When it returns a graph, the query
  returned memories, the round over them left the queue empty, every node is one of
  these memories and every edge starts at the id of a node. And it does return a graph
  when the query returns memories with hashable ids and iterable links.
\<close>

theorem explore_depth_zero:
  "snd (forgetful_explore h starting_point group_id 0 s) =
     snd (forgetful_query h starting_point group_id 5 s) \<and>
   (forgetful_explore h starting_point group_id 0 s = (Inr kg, s') \<longrightarrow>
      (\<exists>ms visited.
         fst (forgetful_query h starting_point group_id 5 s) = Inr ms \<and>
         explore_memories 0 0 ms ({}, [], [], []) = Inr (visited, nodes kg, edges kg, []) \<and>
         set (nodes kg) \<subseteq> set ms \<and>
         source ` set (edges kg) \<subseteq> memory_id ` set (nodes kg))) \<and>
   (fst (forgetful_query h starting_point group_id 5 s) = Inr ms \<and>
    (\<forall>m\<in>set ms. hashable (memory_id m) \<and>
       (\<exists>ls. py_iter (dict_get (metadata m) ''linked_memory_ids'' (JList [])) = Inr ls))
    \<longrightarrow> (\<exists>kg. fst (forgetful_explore h starting_point group_id 0 s) = Inr kg))"
proof (intro conjI impI)
  show "snd (forgetful_explore h starting_point group_id 0 s) =
     snd (forgetful_query h starting_point group_id 5 s)"
    by (simp add: forgetful_explore_zero split: prod.splits sum.splits)
next
  assume e: "forgetful_explore h starting_point group_id 0 s = (Inr kg, s')"
  then obtain ms0 s1 visited ns es queue where
    q: "forgetful_query h starting_point group_id 5 s = (Inr ms0, s1)"
    and m: "explore_memories 0 0 ms0 ({}, [], [], []) = Inr (visited, ns, es, queue)"
    and kg: "kg = \<lparr>nodes = ns, edges = es\<rparr>"
    by (auto simp: forgetful_explore_zero split: prod.splits sum.splits)
  from explore_memories_queue [OF m] have queue: "queue = []"
    by auto
  from explore_memories_result [OF m] have "set ns \<subseteq> set ms0"
    "source ` set es \<subseteq> memory_id ` set ns"
    by auto
  with q m kg queue show "\<exists>ms visited.
         fst (forgetful_query h starting_point group_id 5 s) = Inr ms \<and>
         explore_memories 0 0 ms ({}, [], [], []) = Inr (visited, nodes kg, edges kg, []) \<and>
         set (nodes kg) \<subseteq> set ms \<and>
         source ` set (edges kg) \<subseteq> memory_id ` set (nodes kg)"
    by (intro exI [of _ ms0] exI [of _ visited]) simp
next
  assume a: "fst (forgetful_query h starting_point group_id 5 s) = Inr ms \<and>
    (\<forall>m\<in>set ms. hashable (memory_id m) \<and>
       (\<exists>ls. py_iter (dict_get (metadata m) ''linked_memory_ids'' (JList [])) = Inr ls))"
  then obtain r where "explore_memories 0 0 ms ({}, [], [], []) = Inr r"
    using explore_memories_returns [of ms 0 0 "({}, [], [], [])"] by blast
  with a show "\<exists>kg. fst (forgetful_explore h starting_point group_id 0 s) = Inr kg"
    by (cases r rule: prod_cases4)
      (auto simp: forgetful_explore_zero split: prod.splits sum.splits)
qed

text \<open>
  The run on two memories that list each other, for a depth of at least 2: the queries
  for the first, the second and once more the first, whose memory is then skipped.
\<close>

lemma cycle_run:
  assumes "forgetful_query h a g 5 s = (Inr [mA], s1)"
    and "forgetful_query h b g 5 s1 = (Inr [mB], s2)"
    and "forgetful_query h a g 5 s2 = (Inr [mA], s3)"
    and "hashable (memory_id mA)" and "hashable (memory_id mB)"
    and "memory_id mA \<noteq> memory_id mB"
    and "dict_get (metadata mA) ''linked_memory_ids'' (JList []) = JList [lb]"
    and "dict_get (metadata mB) ''linked_memory_ids'' (JList []) = JList [la]"
    and "py_str la = a" and "py_str lb = b"
    and "2 \<le> depth"
  shows "forgetful_explore h a g depth s =
           (Inr \<lparr>nodes = [mA, mB], edges = [linked_to mA lb, linked_to mB la]\<rparr>, s3)"
  using assms by (simp add: forgetful_explore_def explore_links_eq py_iter_def)

text \<open>The id of a memory that \<open>query\<close> returns is a string, so it can be hashed.\<close>

lemma forgetful_memory_id:
  "memory_id (forgetful_memory kvs d) = JStr (py_str (dict_get kvs ''id'' (JStr [])))"
  by (simp add: forgetful_memory_def)

lemma forgetful_query_ids:
  fixes h :: "('w, 'dt) host" and s :: "'w forgetful_backend"
  assumes "forgetful_query h q g n s = (Inr ms, s')"
  shows "\<forall>m\<in>set ms. hashable (memory_id m)"
proof
  fix m
  assume m: "m \<in> set ms"
  from assms obtain result s2 where
    "parse_records ''memories'' (parse_forgetful_memory h) result s2 = (Inr ms, s')"
    by (auto simp: forgetful_query_def parse_forgetful_memories_def split: prod.splits sum.splits)
  from parse_records_success [OF this] obtain rs where
    "list_all2 (\<lambda>m r. \<exists>(s0 :: 'w forgetful_backend) s1.
        parse_forgetful_memory h r s0 = (Inr m, s1)) ms rs"
    by blast
  with m obtain r and s0 :: "'w forgetful_backend" and s1 where
    "parse_forgetful_memory h r s0 = (Inr m, s1)"
    by (auto simp: list_all2_conv_all_nth in_set_conv_nth)
  from parse_forgetful_memory_fields [OF this] obtain kvs where
    "m = forgetful_memory kvs (created_at m)"
    by blast
  then have "memory_id m = memory_id (forgetful_memory kvs (created_at m))"
    by simp
  then show "hashable (memory_id m)"
    by (simp add: forgetful_memory_id hashable_def)
qed

text \<open>
  The claim C1 asks for exactly 2 nodes whenever two memories list each other. On the
  example host with the store of the two numbered memories, \<open>explore\<close> from \<open>start\<close> with
  depth 2 finds the first memory, puts the id it lists on the queue and queries for the
  text \<open>2\<close>, which matches no record: the graph has one node.
\<close>

theorem explore_cycle_counterexample:
  "fst (forgetful_explore (demo_host numbered_store JNull) ''start'' ''grp'' 2 start) =
     Inr \<lparr>nodes = [forgetful_memory (numbered_fields 1 ''2024-05-01T10:00:00.000000'' [''start''] [2])
                     ''2024-05-01T10:00:00.000000''],
          edges = [\<lparr>source = JStr ''1'', target = JStr ''2'',
                    relation_type = JStr ''linked_to'', rel_metadata = []\<rparr>]\<rparr> \<and>
   (\<exists>kg. fst (forgetful_explore (demo_host numbered_store JNull) ''start'' ''grp'' 2 start) = Inr kg \<and>
         length (nodes kg) = 1 \<and> length (nodes kg) \<noteq> 2) \<and>
   map (\<lambda>c. dict_get (case snd c of JDict kvs \<Rightarrow> kvs | _ \<Rightarrow> []) ''query'' JNull)
     (drop 2 (calls (snd (forgetful_explore (demo_host numbered_store JNull) ''start'' ''grp'' 2
        start)))) =
     [JStr ''start'', JStr ''2'']"
  by (simp add: forgetful_explore_def explore_links_eq forgetful_query_def
      group_to_project_id_def create_project_def query_memory_args_def
      parse_forgetful_memories_def parse_records_def parse_forgetful_memory_def read_clock_def
      from_iso_def forgetful_memory_def hashable_def py_str_def int_str_def nat_digits.simps
      hex_digit_def linked_to_def numbered_store_def numbered_fields_def demo_defs)

text \<open>
  C1, as amended. \<open>ForgetfulBackend.explore\<close> is a total function: every call ends, with
  a graph or an exception. No two nodes of a graph it returns have the same id. And let
  the three queries the traversal makes, for \<open>a\<close>, for \<open>b\<close> and for \<open>a\<close> again, return
  exactly the memory A, exactly the memory B and exactly A, where A lists an id whose
  \<open>str\<close> is \<open>b\<close>, B lists an id whose \<open>str\<close> is \<open>a\<close>, and the ids of A and B differ. Then
  for every depth of at least 2, \<open>explore\<close> from \<open>a\<close> returns the graph of exactly the two
  nodes A and B and the two edges between them, and leaves the backend as the third query
  left it.
\<close>

theorem explore_cycle:
  "(forgetful_explore h starting_point g d s = (Inr kg, s') \<longrightarrow>
      distinct (map memory_id (nodes kg))) \<and>
   (forgetful_query h a g 5 s = (Inr [mA], s1) \<and>
    forgetful_query h b g 5 s1 = (Inr [mB], s2) \<and>
    forgetful_query h a g 5 s2 = (Inr [mA], s3) \<and>
    memory_id mA \<noteq> memory_id mB \<and>
    dict_get (metadata mA) ''linked_memory_ids'' (JList []) = JList [lb] \<and> py_str lb = b \<and>
    dict_get (metadata mB) ''linked_memory_ids'' (JList []) = JList [la] \<and> py_str la = a \<and>
    2 \<le> depth \<longrightarrow>
      forgetful_explore h a g depth s =
        (Inr \<lparr>nodes = [mA, mB], edges = [linked_to mA lb, linked_to mB la]\<rparr>, s3))"
proof (intro conjI impI)
  assume "forgetful_explore h starting_point g d s = (Inr kg, s')"
  from forgetful_explore_nodes_distinct [OF this] show "distinct (map memory_id (nodes kg))"
    by (rule conjunct1)
next
  assume a: "forgetful_query h a g 5 s = (Inr [mA], s1) \<and>
    forgetful_query h b g 5 s1 = (Inr [mB], s2) \<and>
    forgetful_query h a g 5 s2 = (Inr [mA], s3) \<and>
    memory_id mA \<noteq> memory_id mB \<and>
    dict_get (metadata mA) ''linked_memory_ids'' (JList []) = JList [lb] \<and> py_str lb = b \<and>
    dict_get (metadata mB) ''linked_memory_ids'' (JList []) = JList [la] \<and> py_str la = a \<and>
    2 \<le> depth"
  then have q1: "forgetful_query h a g 5 s = (Inr [mA], s1)"
    and q2: "forgetful_query h b g 5 s1 = (Inr [mB], s2)"
    and q3: "forgetful_query h a g 5 s2 = (Inr [mA], s3)"
    and ids: "memory_id mA \<noteq> memory_id mB"
    and la: "dict_get (metadata mA) ''linked_memory_ids'' (JList []) = JList [lb]"
    and lb: "dict_get (metadata mB) ''linked_memory_ids'' (JList []) = JList [la]"
    and texts: "py_str la = a" "py_str lb = b"
    and depth: "2 \<le> depth"
    by simp_all
  have hA: "hashable (memory_id mA)"
    using forgetful_query_ids [OF q1] by simp
  have hB: "hashable (memory_id mB)"
    using forgetful_query_ids [OF q2] by simp
  show "forgetful_explore h a g depth s =
        (Inr \<lparr>nodes = [mA, mB], edges = [linked_to mA lb, linked_to mB la]\<rparr>, s3)"
    by (rule cycle_run [OF q1 q2 q3 hA hB ids la lb texts depth])
qed



text \<open>
  On the example host every query returns, whatever the state of the backend: listing the
  projects gives dicts only, a missing project is created, and the records of the store
  parse.
\<close>

lemma find_project_dicts:
  assumes "\<forall>p\<in>set ps. \<exists>kvs. p = JDict kvs"
  shows "\<exists>r. find_project g ps = Inr r"
  using assms by (induction ps) (auto simp: py_get_def)

lemma find_project_records:
  "\<exists>r. find_project g (project_records names) = Inr r"
  by (rule find_project_dicts) (auto simp: project_records_def)

lemma demo_group_to_project_id:
  "\<exists>project_id s1. group_to_project_id (demo_host store saved) g s = (Inr project_id, s1)"
proof (cases "project_cache s g")
  case (Some project_id)
  then show ?thesis by (simp add: group_to_project_id_def)
next
  case None
  note cache = None
  obtain r where r: "find_project g (project_records (snd (world s))) = Inr r"
    using find_project_records by blast
  show ?thesis
  proof (cases r)
    case None
    with cache r show ?thesis
      by (simp add: group_to_project_id_def create_project_def demo_host_def
          demo_forgetful_def invoke_def py_get_def py_iter_def dict_get_def)
  next
    case (Some project_id)
    with cache r show ?thesis
      by (simp add: group_to_project_id_def demo_host_def demo_forgetful_def invoke_def
          py_get_def py_iter_def dict_get_def)
  qed
qed

lemma demo_forgetful_query:
  assumes "\<And>s1 :: (nat \<times> string list) forgetful_backend.
             \<exists>s'. parse_forgetful_memories (demo_host store saved)
                    (JDict [(''memories'', JList (filter (matches (JStr q)) store))]) s1 =
                  (Inr ms, s')"
  shows "\<exists>s'. forgetful_query (demo_host store saved) q g limit s = (Inr ms, s')"
proof -
  obtain project_id s1 where
    p: "group_to_project_id (demo_host store saved) g s = (Inr project_id, s1)"
    using demo_group_to_project_id by blast
  have "forgetful_query (demo_host store saved) q g limit s =
          parse_forgetful_memories (demo_host store saved)
            (JDict [(''memories'', JList (filter (matches (JStr q)) store))])
            (s1\<lparr>world := world s1,
                calls := calls s1 @ [(''query_memory'', query_memory_args q project_id limit)]\<rparr>)"
    using p
    by (simp add: forgetful_query_def invoke_def demo_host_def demo_forgetful_def
        query_memory_args_def py_get_def dict_get_def)
  with assms show ?thesis by simp
qed

lemmas parse_defs = parse_forgetful_memories_def parse_records_def parse_forgetful_memory_def
  read_clock_def from_iso_def

lemma cyclic_query_A:
  "\<exists>s'. forgetful_query (demo_host cyclic_store JNull) ''A'' g 5 s =
     (Inr [forgetful_memory (stored_fields ''A'' ''2024-05-01T10:00:00.000000'' [] [''B''])
             ''2024-05-01T10:00:00.000000''], s')"
  by (rule demo_forgetful_query) (simp add: parse_defs cyclic_store_def demo_defs)

lemma cyclic_query_B:
  "\<exists>s'. forgetful_query (demo_host cyclic_store JNull) ''B'' g 5 s =
     (Inr [forgetful_memory (stored_fields ''B'' ''2024-05-02T10:00:00.000000'' [] [''A''])
             ''2024-05-02T10:00:00.000000''], s')"
  by (rule demo_forgetful_query) (simp add: parse_defs cyclic_store_def demo_defs)





text \<open>What the parser makes of a stored record: its id and its links.\<close>

lemma stored_memory_id:
  "memory_id (forgetful_memory (stored_fields i stamp ks ls) d) = JStr i"
  by (simp add: forgetful_memory_def stored_fields_def dict_get_def py_str_def)

lemma stored_memory_links:
  "dict_get (metadata (forgetful_memory (stored_fields i stamp ks ls) d))
     ''linked_memory_ids'' (JList []) = JList (map JStr ls)"
  by (simp add: forgetful_memory_def stored_fields_def dict_get_def)

text \<open>On the example host, from A in the store of the two memories that list each other.\<close>

theorem explore_depth_zero_witness:
  "snd (forgetful_explore (demo_host cyclic_store JNull) ''A'' ''grp'' 0 start) =
     snd (forgetful_query (demo_host cyclic_store JNull) ''A'' ''grp'' 5 start) \<and>
   fst (forgetful_explore (demo_host cyclic_store JNull) ''A'' ''grp'' 0 start) =
     Inr \<lparr>nodes = [forgetful_memory (stored_fields ''A'' ''2024-05-01T10:00:00.000000'' [] [''B''])
                     ''2024-05-01T10:00:00.000000''],
          edges = [\<lparr>source = JStr ''A'', target = JStr ''B'',
                    relation_type = JStr ''linked_to'', rel_metadata = []\<rparr>]\<rparr> \<and>
   (\<exists>ms visited.
      fst (forgetful_query (demo_host cyclic_store JNull) ''A'' ''grp'' 5 start) = Inr ms \<and>
      explore_memories 0 0 ms ({}, [], [], []) =
        Inr (visited,
             [forgetful_memory (stored_fields ''A'' ''2024-05-01T10:00:00.000000'' [] [''B''])
                ''2024-05-01T10:00:00.000000''],
             [\<lparr>source = JStr ''A'', target = JStr ''B'',
               relation_type = JStr ''linked_to'', rel_metadata = []\<rparr>], [])) \<and>
   (\<exists>kg. fst (forgetful_explore (demo_host cyclic_store JNull) ''A'' ''grp'' 0 start) = Inr kg)"
proof -
  let ?h = "demo_host cyclic_store JNull"
  let ?mA = "forgetful_memory (stored_fields ''A'' ''2024-05-01T10:00:00.000000'' [] [''B''])
               ''2024-05-01T10:00:00.000000''"
  let ?kg = "\<lparr>nodes = [?mA],
              edges = [\<lparr>source = JStr ''A'', target = JStr ''B'',
                        relation_type = JStr ''linked_to'', rel_metadata = []\<rparr>]\<rparr>"
  let ?s = "snd (forgetful_explore ?h ''A'' ''grp'' 0 start)"
  obtain s1 where q: "forgetful_query ?h ''A'' ''grp'' 5 start = (Inr [?mA], s1)"
    using cyclic_query_A by blast
  have e: "forgetful_explore ?h ''A'' ''grp'' 0 start = (Inr ?kg, ?s)"
    by (simp add: prod_eq_iff forgetful_explore_def q explore_links_eq py_iter_def
        stored_memory_id stored_memory_links hashable_def linked_to_def py_str_def)
  have ms: "fst (forgetful_query ?h ''A'' ''grp'' 5 start) = Inr [?mA] \<and>
    (\<forall>m\<in>set [?mA]. hashable (memory_id m) \<and>
       (\<exists>ls. py_iter (dict_get (metadata m) ''linked_memory_ids'' (JList [])) = Inr ls))"
    by (simp add: q stored_memory_id stored_memory_links hashable_def py_iter_def)
  note t = explore_depth_zero [of ?h "''A''" "''grp''" start ?kg ?s "[?mA]"]
  have first: "snd (forgetful_explore ?h ''A'' ''grp'' 0 start) =
     snd (forgetful_query ?h ''A'' ''grp'' 5 start)"
    by (rule conjunct1 [OF t])
  have second: "fst (forgetful_explore ?h ''A'' ''grp'' 0 start) = Inr ?kg"
    using e by (simp add: prod_eq_iff)
  have "\<exists>ms visited.
      fst (forgetful_query ?h ''A'' ''grp'' 5 start) = Inr ms \<and>
      explore_memories 0 0 ms ({}, [], [], []) = Inr (visited, nodes ?kg, edges ?kg, []) \<and>
      set (nodes ?kg) \<subseteq> set ms \<and>
      source ` set (edges ?kg) \<subseteq> memory_id ` set (nodes ?kg)"
    by (rule mp [OF conjunct1 [OF conjunct2 [OF t]] e])
  then have third: "\<exists>ms visited.
      fst (forgetful_query ?h ''A'' ''grp'' 5 start) = Inr ms \<and>
      explore_memories 0 0 ms ({}, [], [], []) =
        Inr (visited, [?mA],
             [\<lparr>source = JStr ''A'', target = JStr ''B'',
               relation_type = JStr ''linked_to'', rel_metadata = []\<rparr>], [])"
    by (elim exE conjE, intro exI conjI) simp_all
  have fourth: "\<exists>kg. fst (forgetful_explore ?h ''A'' ''grp'' 0 start) = Inr kg"
    by (rule mp [OF conjunct2 [OF conjunct2 [OF t]] ms])
  show ?thesis by (rule conjI [OF first conjI [OF second conjI [OF third fourth]]])
qed

text \<open>On the example host, from A in the same store, with depth 2.\<close>

theorem explore_cycle_witness:
  "fst (forgetful_explore (demo_host cyclic_store JNull) ''A'' ''grp'' 2 start) =
     Inr \<lparr>nodes = [forgetful_memory (stored_fields ''A'' ''2024-05-01T10:00:00.000000'' [] [''B''])
                     ''2024-05-01T10:00:00.000000'',
                   forgetful_memory (stored_fields ''B'' ''2024-05-02T10:00:00.000000'' [] [''A''])
                     ''2024-05-02T10:00:00.000000''],
          edges = [\<lparr>source = JStr ''A'', target = JStr ''B'',
                    relation_type = JStr ''linked_to'', rel_metadata = []\<rparr>,
                   \<lparr>source = JStr ''B'', target = JStr ''A'',
                    relation_type = JStr ''linked_to'', rel_metadata = []\<rparr>]\<rparr> \<and>
   distinct (map memory_id
     [forgetful_memory (stored_fields ''A'' ''2024-05-01T10:00:00.000000'' [] [''B''])
        ''2024-05-01T10:00:00.000000'',
      forgetful_memory (stored_fields ''B'' ''2024-05-02T10:00:00.000000'' [] [''A''])
        ''2024-05-02T10:00:00.000000''])"
proof -
  let ?h = "demo_host cyclic_store JNull"
  let ?mA = "forgetful_memory (stored_fields ''A'' ''2024-05-01T10:00:00.000000'' [] [''B''])
               ''2024-05-01T10:00:00.000000''"
  let ?mB = "forgetful_memory (stored_fields ''B'' ''2024-05-02T10:00:00.000000'' [] [''A''])
               ''2024-05-02T10:00:00.000000''"
  let ?kg = "\<lparr>nodes = [?mA, ?mB],
              edges = [linked_to ?mA (JStr ''B''), linked_to ?mB (JStr ''A'')]\<rparr>"
  let ?s1 = "snd (forgetful_query ?h ''A'' ''grp'' 5 start)"
  let ?s2 = "snd (forgetful_query ?h ''B'' ''grp'' 5 ?s1)"
  let ?s3 = "snd (forgetful_query ?h ''A'' ''grp'' 5 ?s2)"
  note t = explore_cycle [where h = ?h and starting_point = "''A''" and g = "''grp''"
      and d = 2 and s = start and kg = ?kg and s' = ?s3 and a = "''A''" and b = "''B''"
      and mA = ?mA and mB = ?mB and ?s1.0 = ?s1 and ?s2.0 = ?s2 and ?s3.0 = ?s3
      and la = "JStr ''A''" and lb = "JStr ''B''" and depth = 2]
  have q1: "forgetful_query ?h ''A'' ''grp'' 5 start = (Inr [?mA], ?s1)"
    using cyclic_query_A [of "''grp''" start] by auto
  have q2: "forgetful_query ?h ''B'' ''grp'' 5 ?s1 = (Inr [?mB], ?s2)"
    using cyclic_query_B [of "''grp''" ?s1] by auto
  have q3: "forgetful_query ?h ''A'' ''grp'' 5 ?s2 = (Inr [?mA], ?s3)"
    using cyclic_query_A [of "''grp''" ?s2] by auto
  have "forgetful_query ?h ''A'' ''grp'' 5 start = (Inr [?mA], ?s1) \<and>
    forgetful_query ?h ''B'' ''grp'' 5 ?s1 = (Inr [?mB], ?s2) \<and>
    forgetful_query ?h ''A'' ''grp'' 5 ?s2 = (Inr [?mA], ?s3) \<and>
    memory_id ?mA \<noteq> memory_id ?mB \<and>
    dict_get (metadata ?mA) ''linked_memory_ids'' (JList []) = JList [JStr ''B''] \<and>
    py_str (JStr ''B'') = ''B'' \<and>
    dict_get (metadata ?mB) ''linked_memory_ids'' (JList []) = JList [JStr ''A''] \<and>
    py_str (JStr ''A'') = ''A'' \<and> (2::int) \<le> 2"
    by (intro conjI q1 q2 q3) (simp_all add: stored_memory_id stored_memory_links py_str_def)
  then have e: "forgetful_explore ?h ''A'' ''grp'' 2 start = (Inr ?kg, ?s3)"
    by (rule mp [OF conjunct2 [OF t]])
  then have d: "distinct (map memory_id (nodes ?kg))"
    by (rule mp [OF conjunct1 [OF t]])
  from e have first: "fst (forgetful_explore ?h ''A'' ''grp'' 2 start) =
     Inr \<lparr>nodes = [?mA, ?mB],
          edges = [\<lparr>source = JStr ''A'', target = JStr ''B'',
                    relation_type = JStr ''linked_to'', rel_metadata = []\<rparr>,
                   \<lparr>source = JStr ''B'', target = JStr ''A'',
                    relation_type = JStr ''linked_to'', rel_metadata = []\<rparr>]\<rparr>"
    by (simp add: linked_to_def stored_memory_id py_str_def)
  from d have second: "distinct (map memory_id [?mA, ?mB])"
    by simp
  show ?thesis by (rule conjI [OF first second])
qed

text \<open>
  The tool calls of that run: the project is looked up and created, then come three
  queries, for A, for B and for A again, which B put on the queue. The memory the last
  one returns is skipped.
\<close>

lemma cycle_calls:
  "map fst (calls (snd (forgetful_explore (demo_host cyclic_store JNull) ''A'' ''grp'' 2 start))) =
     [''list_projects'', ''create_project'', ''query_memory'', ''query_memory'', ''query_memory''] \<and>
   map (\<lambda>c. dict_get (case snd c of JDict kvs \<Rightarrow> kvs | _ \<Rightarrow> []) ''query'' JNull)
     (drop 2 (calls (snd (forgetful_explore (demo_host cyclic_store JNull) ''A'' ''grp'' 2 start)))) =
     [JStr ''A'', JStr ''B'', JStr ''A'']"
  by (simp add: forgetful_explore_def explore_links_eq forgetful_query_def
      group_to_project_id_def create_project_def query_memory_args_def parse_defs
      forgetful_memory_def hashable_def py_str_def cyclic_store_def demo_defs)


text \<open>The tool calls of that run: four queries, for the root, a, b and c.\<close>

lemma tree_calls:
  "map (\<lambda>c. (fst c, dict_get (case snd c of JDict kvs \<Rightarrow> kvs | _ \<Rightarrow> []) ''query'' JNull))
     (calls (snd (forgetful_explore (demo_host tree_store JNull) ''root'' ''grp'' 2 start))) =
     [(''list_projects'', JNull), (''create_project'', JNull), (''query_memory'', JStr ''root''),
      (''query_memory'', JStr ''a''), (''query_memory'', JStr ''b''),
      (''query_memory'', JStr ''c'')]"
  by (simp add: forgetful_explore_def explore_links_eq forgetful_query_def
      group_to_project_id_def create_project_def query_memory_args_def parse_defs
      forgetful_memory_def hashable_def py_str_def tree_store_def demo_defs)

end
